theory Spec2Isabelle
  imports Complex_Main "HOL-Library.Multiset"
begin

section \<open>Data model of \<open>neuralAnimationLogical.js\<close>\<close>

text \<open>
  The engine is the closure \<open>createNeuralNetworkAnimation\<close>. Its variables
  (\<open>config\<close>, \<open>nodes\<close>, \<open>nodeMap\<close>, \<open>nextNodeId\<close>, \<open>animationFrameId\<close>, the parsed
  colours) become the fields of one record, and every function of the closure takes the
  record and returns the updated one.

  Numbers. A number the engine's state holds is modelled as a real number, and rounding is
  outside the model: a result stated here is a result about the exact arithmetic the code
  spells out. The code has one operation that leads from such numbers to an infinity or
  to NaN, the quotient of line 204 for \<open>activationThreshold = 0\<close>; \<open>activationAfter\<close> below
  gives the level a tick computes with these values too. Quantities that count (layer sizes, \<open>maxConnectionsPerNode\<close>, node
  ids, layer indices) are natural numbers, colour channels (results of \<open>parseInt\<close> and
  \<open>Math.round\<close>) are integers.

  Objects. A node object lives in the array \<open>nodes\<close>; a reference to it is its position in
  that array. \<open>nodeMap\<close> maps a node id to such a reference, so a write through
  \<open>nodeMap.get(id)\<close> is a write to the array element.

  Names. The node fields \<open>id\<close>, \<open>x\<close>, \<open>y\<close> are \<open>nodeId\<close>, \<open>nodeX\<close>, \<open>nodeY\<close> here and the colour
  fields \<open>r\<close>, \<open>g\<close>, \<open>b\<close>, \<open>a\<close> are \<open>red\<close>, \<open>green\<close>, \<open>blue\<close>, \<open>alpha\<close>: a record field is a
  constant, and these would take the names of \<open>id\<close> and of the usual variables.
\<close>

record color =
  red :: int
  green :: int
  blue :: int
  alpha :: real

record config =
  layers :: "nat list"
  hSpacingMultiplier :: real
  vSpacingMultiplier :: real
  positionJitter :: real
  baseNodeRadius :: real
  nodeRadiusVariance :: real
  nodeColor :: string
  activeNodeColor :: string
  nodePulseMagnitude :: real
  nodePulseSpeed :: real
  connectionColor :: string
  activeConnectionColors :: "string list"
  connectionWidth :: real
  activeConnectionWidth :: real
  connectionGlowBlur :: real
  connectionGlowColor :: string
  inputActivationProbability :: real
  signalPropagationSpeed :: real
  activationThreshold :: real
  activationBoost :: real
  decayRate :: real
  minActivationLevel :: real
  maxConnectionsPerNode :: nat
  useCurves :: bool

record connection =
  targetId :: nat

record node =
  nodeId :: nat
  nodeX :: real
  nodeY :: real
  baseRadius :: real
  currentRadius :: real
  layerIndex :: nat
  activationLevel :: real
  incomingSignal :: real
  connections :: "connection list"

text \<open>
  What a call reads from the browser: the window's size, the clock, \<open>parseFloat\<close>, and the
  outcomes of \<open>Math.random()\<close>. A random draw is named by the place that draws it and by
  the node it is drawn for: \<open>randRadius\<close>, \<open>randX\<close>, \<open>randY\<close> (lines 125, 128, 129, by node
  id), \<open>randFire\<close> (line 195, by the node's position in \<open>nodes\<close>). \<open>shuffle sourceId xs\<close>
  is the array that \<open>[...xs].sort(() => 0.5 - Math.random())\<close> returns at line 147 for
  the source node \<open>sourceId\<close>: the order is the engine's own, so it is a parameter, and a
  theorem that needs the result to be a rearrangement of \<open>xs\<close> says so.
\<close>

record host =
  innerWidth :: real
  innerHeight :: real
  now :: real
  parseFloat :: "string \<Rightarrow> real"
  randRadius :: "nat \<Rightarrow> real"
  randX :: "nat \<Rightarrow> real"
  randY :: "nat \<Rightarrow> real"
  randFire :: "nat \<Rightarrow> real"
  shuffle :: "nat \<Rightarrow> nat list \<Rightarrow> nat list"

text \<open>
  The closure's variables, the canvas size, and the part of the browser the lifecycle
  functions act on: \<open>rafLast\<close> is the last handle \<open>requestAnimationFrame\<close> gave out (handles
  count up from 1), \<open>rafPending\<close> the handles of the callbacks still scheduled, and
  \<open>resizeListening\<close> says whether \<open>handleResize\<close> is registered for \<open>resize\<close>.
\<close>

record engine =
  config :: config
  nodes :: "node list"
  animationFrameId :: "nat option"
  nodeMap :: "nat \<rightharpoonup> nat"
  nextNodeId :: nat
  parsedNodeColor :: color
  parsedActiveNodeColor :: color
  parsedConnectionColor :: color
  parsedActiveConnectionColors :: "color list"
  canvasWidth :: real
  canvasHeight :: real
  rafLast :: nat
  rafPending :: "nat list"
  resizeListening :: bool

datatype error = TypeError

section \<open>The activation simulator: \<open>update\<close>\<close>

text \<open>Line 166: every node's \<open>incomingSignal\<close> is set to 0.\<close>

definition resetSignals :: "node list \<Rightarrow> node list" where
  "resetSignals ns = map (\<lambda>n. n\<lparr>incomingSignal := 0\<rparr>) ns"

text \<open>
  Lines 173-179, one connection: the target is looked up in \<open>nodeMap\<close>; a missing target is
  skipped, a found one has the signal added to its \<open>incomingSignal\<close>.
\<close>

definition addSignal :: "(nat \<rightharpoonup> nat) \<Rightarrow> real \<Rightarrow> connection \<Rightarrow> node list \<Rightarrow> node list" where
  "addSignal nm signalStrength conn ns =
     (case nm (targetId conn) of
        None \<Rightarrow> ns
      | Some ref \<Rightarrow>
          ns[ref := (ns ! ref)\<lparr>incomingSignal := incomingSignal (ns ! ref) + signalStrength\<rparr>])"

text \<open>Lines 169-181, one source node (the one at position \<open>i\<close> of \<open>nodes\<close>).\<close>

definition propagateFrom :: "config \<Rightarrow> (nat \<rightharpoonup> nat) \<Rightarrow> nat \<Rightarrow> node list \<Rightarrow> node list" where
  "propagateFrom cfg nm i ns =
     (let sourceNode = ns ! i in
      if activationLevel sourceNode > minActivationLevel cfg then
        (let signalStrength = activationLevel sourceNode * signalPropagationSpeed cfg
         in fold (addSignal nm signalStrength) (connections sourceNode) ns)
      else ns)"

text \<open>Lines 165-181: the reset, then the propagation over all nodes in array order.\<close>

definition propagate :: "config \<Rightarrow> (nat \<rightharpoonup> nat) \<Rightarrow> node list \<Rightarrow> node list" where
  "propagate cfg nm ns =
     fold (propagateFrom cfg nm) [0..<length ns] (resetSignals ns)"

text \<open>
  Lines 185-211 in real arithmetic: the new activation level of one node, from its level
  and its accumulated signal; \<open>rnd\<close> is the outcome of \<open>Math.random()\<close> at line 195. This is
  the level the code computes whenever \<open>activationThreshold\<close> is not 0. For the threshold 0
  the quotient of line 204 is an infinity or NaN in JavaScript and the level the code
  computes is the one \<open>activationAfter\<close> gives below, not this one.
\<close>

definition decayed :: "config \<Rightarrow> real \<Rightarrow> real" where
  "decayed cfg currentActivation =
     (if currentActivation > minActivationLevel cfg
      then currentActivation - decayRate cfg else currentActivation)"

definition nextActivation :: "config \<Rightarrow> real \<Rightarrow> node \<Rightarrow> real" where
  "nextActivation cfg rnd n =
     (let currentActivation = decayed cfg (activationLevel n);
          currentActivation =
            (if layerIndex n = 0 then
               (if rnd < inputActivationProbability cfg
                then max currentActivation 0.1 + activationBoost cfg
                else currentActivation)
             else
               (if incomingSignal n \<ge> activationThreshold cfg
                then max currentActivation 0.1
                       + activationBoost cfg * (incomingSignal n / activationThreshold cfg)
                else currentActivation))
      in max 0 currentActivation)"

text \<open>Lines 184-216, one node: the new level, then the radius of the pulse.\<close>

definition updateNode :: "config \<Rightarrow> host \<Rightarrow> nat \<Rightarrow> node \<Rightarrow> node" where
  "updateNode cfg h i n =
     (let n1 = n\<lparr>activationLevel := nextActivation cfg (randFire h i) n\<rparr>;
          pulse =
            (if nodePulseMagnitude cfg > 0
             then sin (now h * 0.01 * nodePulseSpeed cfg + real (layerIndex n1))
                    * nodePulseMagnitude cfg * min 1 (activationLevel n1)
             else 0)
      in n1\<lparr>currentRadius := baseRadius n1 + pulse\<rparr>)"

definition updateNodes :: "config \<Rightarrow> host \<Rightarrow> node list \<Rightarrow> node list" where
  "updateNodes cfg h ns = map (\<lambda>(i, n). updateNode cfg h i n) (enumerate 0 ns)"

definition update :: "host \<Rightarrow> engine \<Rightarrow> engine" where
  "update h s =
     s\<lparr>nodes := updateNodes (config s) h (propagate (config s) (nodeMap s) (nodes s))\<rparr>"

subsection \<open>The new level over JavaScript's numbers\<close>

text \<open>
  A JavaScript number is a real number, NaN, or one of the two infinities. The operations
  of lines 204 and 211 on them, for the operands these lines have in a tick that starts
  from real levels: the quotient of two real numbers (the zero of the model being
  JavaScript's \<open>+0\<close>), the product and the sum of a real number and a number, and
  \<open>Math.max(0, x)\<close>, which is NaN for NaN.
\<close>

datatype number = Num real | NaN | PosInfinity | NegInfinity

definition jsDivide :: "real \<Rightarrow> real \<Rightarrow> number" where
  "jsDivide a b =
     (if b \<noteq> 0 then Num (a / b)
      else if a > 0 then PosInfinity
      else if a < 0 then NegInfinity
      else NaN)"

fun jsTimes :: "real \<Rightarrow> number \<Rightarrow> number" where
  "jsTimes a (Num b) = Num (a * b)"
| "jsTimes a NaN = NaN"
| "jsTimes a PosInfinity =
     (if a > 0 then PosInfinity else if a < 0 then NegInfinity else NaN)"
| "jsTimes a NegInfinity =
     (if a > 0 then NegInfinity else if a < 0 then PosInfinity else NaN)"

fun jsPlus :: "real \<Rightarrow> number \<Rightarrow> number" where
  "jsPlus a (Num b) = Num (a + b)"
| "jsPlus a NaN = NaN"
| "jsPlus a PosInfinity = PosInfinity"
| "jsPlus a NegInfinity = NegInfinity"

fun jsMaxZero :: "number \<Rightarrow> number" where
  "jsMaxZero (Num b) = Num (max 0 b)"
| "jsMaxZero NaN = NaN"
| "jsMaxZero PosInfinity = PosInfinity"
| "jsMaxZero NegInfinity = Num 0"

text \<open>
  Lines 185-211 again, for a node whose level and accumulated signal are real numbers:
  the number that line 211 assigns to \<open>activationLevel\<close>.
\<close>

definition activationAfter :: "config \<Rightarrow> real \<Rightarrow> node \<Rightarrow> number" where
  "activationAfter cfg rnd n =
     (let currentActivation = decayed cfg (activationLevel n);
          currentActivation =
            (if layerIndex n = 0 then
               (if rnd < inputActivationProbability cfg
                then Num (max currentActivation 0.1 + activationBoost cfg)
                else Num currentActivation)
             else
               (if incomingSignal n \<ge> activationThreshold cfg
                then jsPlus (max currentActivation 0.1)
                       (jsTimes (activationBoost cfg)
                          (jsDivide (incomingSignal n) (activationThreshold cfg)))
                else Num currentActivation))
      in jsMaxZero currentActivation)"

text \<open>
  The number a tick assigns to the \<open>activationLevel\<close> of the node at position \<open>i\<close>: lines
  165-181 leave its accumulated signal, lines 185-211 compute the level from it.
\<close>

definition levelAfterTick :: "host \<Rightarrow> engine \<Rightarrow> nat \<Rightarrow> number" where
  "levelAfterTick h s i =
     activationAfter (config s) (randFire h i)
       (propagate (config s) (nodeMap s) (nodes s) ! i)"

section \<open>Colours: \<open>parseColor\<close>, \<open>lerp\<close>, \<open>lerpColor\<close>, \<open>processColors\<close>\<close>

text \<open>
  A string is a list of 8-bit characters. \<open>\d\<close> is a decimal digit; \<open>\s\<close> is, among these
  characters, the tab, the line feed, the vertical tab, the form feed, the carriage
  return, the space and the no-break space; \<open>[\d.]\<close> is a digit or a dot.
\<close>

definition isDigit :: "char \<Rightarrow> bool" where
  "isDigit c = (c \<in> set ''0123456789'')"

definition isSpace :: "char \<Rightarrow> bool" where
  "isSpace c = ((of_char c :: nat) \<in> {9, 10, 11, 12, 13, 32, 160})"

definition isDigitOrDot :: "char \<Rightarrow> bool" where
  "isDigitOrDot c = (isDigit c \<or> c = CHR ''.'')"

text \<open>
  The regular expression of line 66,
  \<^verbatim>\<open>rgba?\((\d+)\s*,\s*(\d+)\s*,\s*(\d+)\s*(?:,\s*([\d.]+))?\)\<close>, matched at the
  start of a string. Each repetition is followed by a character outside its class, so the
  longest repetition is the only one that can lead to a match. The result is the text of
  the four groups, the fourth being absent when the alpha part is.
\<close>

definition alphaGroup :: "string \<Rightarrow> string option option" where
  "alphaGroup s =
     (case s of
        CHR '','' # s1 \<Rightarrow>
          (let s2 = dropWhile isSpace s1;
               m4 = takeWhile isDigitOrDot s2
           in if m4 = [] then None
              else (case dropWhile isDigitOrDot s2 of
                      CHR '')'' # _ \<Rightarrow> Some (Some m4)
                    | _ \<Rightarrow> None))
      | CHR '')'' # _ \<Rightarrow> Some None
      | _ \<Rightarrow> None)"

definition numberThenComma :: "string \<Rightarrow> (string \<times> string) option" where
  "numberThenComma s =
     (let m = takeWhile isDigit s in
      if m = [] then None
      else (case dropWhile isSpace (dropWhile isDigit s) of
              CHR '','' # rest \<Rightarrow> Some (m, dropWhile isSpace rest)
            | _ \<Rightarrow> None))"

definition matchHere :: "string \<Rightarrow> (string \<times> string \<times> string \<times> string option) option" where
  "matchHere s =
     (case s of
        CHR ''r'' # CHR ''g'' # CHR ''b'' # s1 \<Rightarrow>
          (case (case s1 of CHR ''a'' # t \<Rightarrow> t | _ \<Rightarrow> s1) of
             CHR ''('' # s2 \<Rightarrow>
               (case numberThenComma s2 of
                  None \<Rightarrow> None
                | Some (m1, s3) \<Rightarrow>
                    (case numberThenComma s3 of
                       None \<Rightarrow> None
                     | Some (m2, s4) \<Rightarrow>
                         (let m3 = takeWhile isDigit s4 in
                          if m3 = [] then None
                          else (case alphaGroup (dropWhile isSpace (dropWhile isDigit s4)) of
                                  None \<Rightarrow> None
                                | Some m4 \<Rightarrow> Some (m1, m2, m3, m4)))))
           | _ \<Rightarrow> None)
      | _ \<Rightarrow> None)"

text \<open>\<open>colorString.match(...)\<close>: the match at the leftmost position that has one.\<close>

fun matchColor :: "string \<Rightarrow> (string \<times> string \<times> string \<times> string option) option" where
  "matchColor [] = matchHere []"
| "matchColor (c # cs) =
     (case matchHere (c # cs) of Some m \<Rightarrow> Some m | None \<Rightarrow> matchColor cs)"

text \<open>\<open>parseInt\<close> on a string of decimal digits.\<close>

definition digitValue :: "char \<Rightarrow> int" where
  "digitValue c = int (of_char c) - 48"

definition parseInt :: "string \<Rightarrow> int" where
  "parseInt ds = fold (\<lambda>c n. 10 * n + digitValue c) ds 0"

text \<open>
  Lines 64-70. The argument is a string, so \<open>match\<close> does not throw and the \<open>catch\<close> is
  never entered. \<open>parseFloat\<close> is the host's.
\<close>

definition parseColor :: "host \<Rightarrow> string \<Rightarrow> color" where
  "parseColor h colorString =
     (case matchColor colorString of
        Some (m1, m2, m3, m4) \<Rightarrow>
          \<lparr>red = parseInt m1, green = parseInt m2, blue = parseInt m3,
           alpha = (case m4 of Some t \<Rightarrow> parseFloat h t | None \<Rightarrow> 1)\<rparr>
      | None \<Rightarrow> \<lparr>red = 50, green = 50, blue = 50, alpha = 0.1\<rparr>)"

text \<open>Line 71.\<close>

definition lerp :: "real \<Rightarrow> real \<Rightarrow> real \<Rightarrow> real" where
  "lerp start end' amount = start + (end' - start) * max 0 (min 1 amount)"

text \<open>Lines 72-79. \<open>Math.round\<close> rounds a half up, as \<open>round\<close> does.\<close>

definition channel :: "int \<Rightarrow> int \<Rightarrow> real \<Rightarrow> int" where
  "channel ca cb t = max 0 (min 255 (round (lerp (of_int ca) (of_int cb) t)))"

definition lerpColor :: "color \<Rightarrow> color \<Rightarrow> real \<Rightarrow> color" where
  "lerpColor colorAObj colorBObj amount =
     (let t = max 0 (min 1 amount)
      in \<lparr>red = channel (red colorAObj) (red colorBObj) t,
          green = channel (green colorAObj) (green colorBObj) t,
          blue = channel (blue colorAObj) (blue colorBObj) t,
          alpha = lerp (alpha colorAObj) (alpha colorBObj) t\<rparr>)"

text \<open>Lines 88-97.\<close>

definition processColors :: "host \<Rightarrow> engine \<Rightarrow> engine" where
  "processColors h s =
     (let cfg = config s;
          palette = map (parseColor h) (activeConnectionColors cfg)
      in s\<lparr>parsedNodeColor := parseColor h (nodeColor cfg),
           parsedActiveNodeColor := parseColor h (activeNodeColor cfg),
           parsedConnectionColor := parseColor h (connectionColor cfg),
           parsedActiveConnectionColors :=
             (if length palette = 0
              then palette @ [parseColor h ''rgba(255,255,255,0.9)'']
              else palette)\<rparr>)"

section \<open>The connection style of \<open>draw\<close>\<close>

text \<open>
  An array read: an index outside the array gives \<open>undefined\<close>, and \<open>lerpColor\<close> throws a
  TypeError when it reads a channel of \<open>undefined\<close>.
\<close>

definition paletteAt :: "color list \<Rightarrow> int \<Rightarrow> color option" where
  "paletteAt palette i =
     (if 0 \<le> i \<and> i < int (length palette) then Some (palette ! nat i) else None)"

text \<open>
  Lines 239-255: the colour, the stroke width and the glow for a source node of clamped
  activation \<open>activation\<close>.
\<close>

definition connectionStyle :: "engine \<Rightarrow> real \<Rightarrow> error + (color \<times> real \<times> real)" where
  "connectionStyle s activation =
     (let palette = parsedActiveConnectionColors s;
          top = int (length palette) - 1;
          colorIndex = \<lfloor>activation * of_int top\<rfloor>;
          nextColorIndex = min top (colorIndex + 1);
          lerpAmount = activation * of_int top - of_int colorIndex
      in case (paletteAt palette colorIndex, paletteAt palette nextColorIndex) of
           (Some startColor, Some endColor) \<Rightarrow>
             (let currentConnColorObj = lerpColor startColor endColor lerpAmount;
                  currentConnColorObj =
                    (if activation < 0.1
                     then lerpColor (parsedConnectionColor s) currentConnColorObj
                            (activation / 0.1)
                     else currentConnColorObj);
                  currentWidth =
                    lerp (connectionWidth (config s)) (activeConnectionWidth (config s))
                      activation;
                  currentGlow = lerp 0 (connectionGlowBlur (config s)) activation
              in Inr (currentConnColorObj, currentWidth, currentGlow))
         | _ \<Rightarrow> Inl TypeError)"

text \<open>
  Lines 230-262, one source node: \<open>None\<close> when its connections are skipped (lines 234 and
  259), the style they are stroked with otherwise.
\<close>

definition connectionStroke :: "engine \<Rightarrow> node \<Rightarrow> error + (color \<times> real \<times> real) option" where
  "connectionStroke s sourceNode =
     (let activation = min 1.0 (activationLevel sourceNode) in
      if activation < minActivationLevel (config s) then Inr None
      else (case connectionStyle s activation of
              Inl e \<Rightarrow> Inl e
            | Inr (c, currentWidth, currentGlow) \<Rightarrow>
                if currentWidth < 0.1 \<or> alpha c < 0.01 then Inr None
                else Inr (Some (c, currentWidth, currentGlow))))"

section \<open>The topology builder: \<open>setup\<close>\<close>

text \<open>Lines 123-136: the node object of the \<open>i\<close>-th node of a layer.\<close>

definition newNode :: "config \<Rightarrow> host \<Rightarrow> real \<Rightarrow> real \<Rightarrow> nat \<Rightarrow> nat \<Rightarrow> nat \<Rightarrow> nat \<Rightarrow> node" where
  "newNode cfg h height layerX nodeCount li ident i =
     (let totalHeight = height * vSpacingMultiplier cfg;
          startY = (height - totalHeight) / 2;
          nodeSpacing =
            (if nodeCount > 1 then totalHeight / (real nodeCount - 1) else totalHeight / 2);
          baseY =
            (if nodeCount = 1 then startY + totalHeight / 2 else startY + real i * nodeSpacing);
          nodeRadius =
            baseNodeRadius cfg + (randRadius h ident - 0.5) * 2 * nodeRadiusVariance cfg
      in \<lparr>nodeId = ident,
          nodeX = layerX + (randX h ident - 0.5) * positionJitter cfg,
          nodeY = baseY + (randY h ident - 0.5) * positionJitter cfg,
          baseRadius = max 1 nodeRadius,
          currentRadius = max 1 nodeRadius,
          layerIndex = li,
          activationLevel = 0,
          incomingSignal = 0,
          connections = []\<rparr>)"

text \<open>
  Lines 122-140, one turn of the loop: the node takes the next id, is pushed on \<open>nodes\<close>,
  entered in \<open>nodeMap\<close>, and its id is pushed on \<open>currentLayerNodeIds\<close>.
\<close>

definition createNode ::
  "config \<Rightarrow> host \<Rightarrow> real \<Rightarrow> nat \<Rightarrow> nat \<Rightarrow> nat \<Rightarrow> engine \<times> nat list \<Rightarrow> engine \<times> nat list" where
  "createNode cfg h layerX nodeCount li i acc =
     (case acc of (s, currentLayerNodeIds) \<Rightarrow>
        (let ident = nextNodeId s;
             n = newNode cfg h (canvasHeight s) layerX nodeCount li ident i
         in (s\<lparr>nextNodeId := ident + 1,
               nodes := nodes s @ [n],
               nodeMap := (nodeMap s)(ident \<mapsto> length (nodes s))\<rparr>,
             currentLayerNodeIds @ [ident])))"

text \<open>
  Lines 144-152, one source node. \<open>nodeMap.get\<close> of an id that is not a key gives
  \<open>undefined\<close>, and pushing on its \<open>connections\<close> would throw.
\<close>

definition connectFrom :: "config \<Rightarrow> host \<Rightarrow> nat list \<Rightarrow> nat \<Rightarrow> engine \<Rightarrow> error + engine" where
  "connectFrom cfg h currentLayerNodeIds sourceId s =
     (case nodeMap s sourceId of
        None \<Rightarrow> Inl TypeError
      | Some ref \<Rightarrow>
          (let shuffledTargets = shuffle h sourceId currentLayerNodeIds;
               connectionsToMake = min (maxConnectionsPerNode cfg) (length shuffledTargets);
               made = map (\<lambda>t. \<lparr>targetId = t\<rparr>) (take connectionsToMake shuffledTargets);
               sourceNode = nodes s ! ref
           in Inr (s\<lparr>nodes :=
                      (nodes s)[ref := sourceNode\<lparr>connections := connections sourceNode @ made\<rparr>]\<rparr>)))"

fun connectAll :: "config \<Rightarrow> host \<Rightarrow> nat list \<Rightarrow> nat list \<Rightarrow> engine \<Rightarrow> error + engine" where
  "connectAll cfg h currentLayerNodeIds [] s = Inr s"
| "connectAll cfg h currentLayerNodeIds (sourceId # rest) s =
     (case connectFrom cfg h currentLayerNodeIds sourceId s of
        Inl e \<Rightarrow> Inl e
      | Inr s' \<Rightarrow> connectAll cfg h currentLayerNodeIds rest s')"

text \<open>
  Lines 115-155, one layer: \<open>li\<close> is the layer's index, \<open>nodeCount\<close> its size, and the
  second component of the pair is \<open>previousLayerNodeIds\<close>.
\<close>

definition buildLayer :: "host \<Rightarrow> nat \<Rightarrow> nat \<Rightarrow> engine \<times> nat list \<Rightarrow> error + engine \<times> nat list" where
  "buildLayer h li nodeCount acc =
     (case acc of (s, previousLayerNodeIds) \<Rightarrow>
        (let cfg = config s;
             layerCount = length (layers cfg);
             totalWidth = canvasWidth s * hSpacingMultiplier cfg;
             startX = (canvasWidth s - totalWidth) / 2;
             layerSpacing = (if layerCount > 1 then totalWidth / (real layerCount - 1) else 0);
             layerX = startX + real li * layerSpacing
         in case fold (createNode cfg h layerX nodeCount li) [0..<nodeCount] (s, []) of
              (s1, currentLayerNodeIds) \<Rightarrow>
                (case (if li > 0 then connectAll cfg h currentLayerNodeIds previousLayerNodeIds s1
                       else Inr s1) of
                   Inl e \<Rightarrow> Inl e
                 | Inr s2 \<Rightarrow> Inr (s2, currentLayerNodeIds))))"

fun buildLayers :: "host \<Rightarrow> (nat \<times> nat) list \<Rightarrow> engine \<times> nat list \<Rightarrow> error + engine \<times> nat list" where
  "buildLayers h [] acc = Inr acc"
| "buildLayers h ((li, nodeCount) # rest) acc =
     (case buildLayer h li nodeCount acc of
        Inl e \<Rightarrow> Inl e
      | Inr acc' \<Rightarrow> buildLayers h rest acc')"

text \<open>Lines 100-156: the function \<open>setup\<close>, named \<open>setup_fn\<close> as \<open>setup\<close> is a keyword.\<close>

definition setup_fn :: "host \<Rightarrow> engine \<Rightarrow> error + engine" where
  "setup_fn h s =
     (let s1 = processColors h (s\<lparr>canvasWidth := innerWidth h, canvasHeight := innerHeight h\<rparr>);
          s2 = s1\<lparr>nodes := [], nodeMap := Map.empty, nextNodeId := 0\<rparr>
      in case buildLayers h (enumerate 0 (layers (config s2))) (s2, []) of
           Inl e \<Rightarrow> Inl e
         | Inr (s3, _) \<Rightarrow> Inr s3)"

section \<open>The lifecycle: \<open>animate\<close>, \<open>start\<close>, \<open>stop\<close>, \<open>handleResize\<close>, \<open>setConfig\<close>\<close>

text \<open>
  \<open>requestAnimationFrame\<close> gives out the next handle and schedules the callback;
  \<open>cancelAnimationFrame\<close> unschedules it. \<open>animationFrameId\<close> is \<open>null\<close> or a handle, and
  \<open>if (animationFrameId)\<close> holds for a handle other than 0.
\<close>

definition requestAnimationFrame :: "engine \<Rightarrow> nat \<times> engine" where
  "requestAnimationFrame s =
     (let handle = rafLast s + 1
      in (handle, s\<lparr>rafLast := handle, rafPending := rafPending s @ [handle]\<rparr>))"

definition cancelAnimationFrame :: "nat \<Rightarrow> engine \<Rightarrow> engine" where
  "cancelAnimationFrame handle s = s\<lparr>rafPending := removeAll handle (rafPending s)\<rparr>"

definition truthy :: "nat option \<Rightarrow> bool" where
  "truthy v = (case v of None \<Rightarrow> False | Some handle \<Rightarrow> handle \<noteq> 0)"

text \<open>Lines 311-315. \<open>draw\<close> writes to the canvas only: the engine is as \<open>update\<close> left it.\<close>

definition animate :: "host \<Rightarrow> engine \<Rightarrow> engine" where
  "animate h s =
     (case requestAnimationFrame (update h s) of
        (handle, s1) \<Rightarrow> s1\<lparr>animationFrameId := Some handle\<rparr>)"

text \<open>Lines 317-323.\<close>

definition start :: "host \<Rightarrow> engine \<Rightarrow> error + engine" where
  "start h s =
     (if \<not> truthy (animationFrameId s) then
        (case (if length (nodes s) = 0 then setup_fn h s else Inr s) of
           Inl e \<Rightarrow> Inl e
         | Inr s1 \<Rightarrow>
             (case requestAnimationFrame s1 of
                (handle, s2) \<Rightarrow>
                  Inr (s2\<lparr>animationFrameId := Some handle, resizeListening := True\<rparr>)))
      else Inr s)"

text \<open>Lines 324-329.\<close>

definition stop :: "engine \<Rightarrow> engine" where
  "stop s =
     (if truthy (animationFrameId s) then
        (cancelAnimationFrame (the (animationFrameId s)) s)
          \<lparr>animationFrameId := None, resizeListening := False\<rparr>
      else s)"

text \<open>Line 316.\<close>

definition handleResize :: "host \<Rightarrow> engine \<Rightarrow> error + engine" where
  "handleResize h s =
     (case setup_fn h (stop s) of Inl e \<Rightarrow> Inl e | Inr s1 \<Rightarrow> start h s1)"

text \<open>
  Line 337. \<open>Object.assign(config, newOptions)\<close> overwrites the fields that \<open>newOptions\<close>
  has: \<open>newOptions\<close> is the function that does so.
\<close>

definition setConfig :: "host \<Rightarrow> (config \<Rightarrow> config) \<Rightarrow> engine \<Rightarrow> error + engine" where
  "setConfig h newOptions s =
     (let s1 = s\<lparr>config := newOptions (config s)\<rparr>
      in if truthy (animationFrameId s1) then handleResize h s1 else setup_fn h s1)"

text \<open>The browser runs the oldest scheduled callback, which is \<open>animate\<close>.\<close>

definition frame :: "host \<Rightarrow> engine \<Rightarrow> engine" where
  "frame h s =
     (case rafPending s of
        [] \<Rightarrow> s
      | handle # rest \<Rightarrow> animate h (s\<lparr>rafPending := rest\<rparr>))"

text \<open>Lines 14-55: the default configuration.\<close>

definition defaultConfig :: config where
  "defaultConfig =
     \<lparr>layers = [5, 9, 11, 9, 6],
      hSpacingMultiplier = 0.85,
      vSpacingMultiplier = 0.85,
      positionJitter = 10,
      baseNodeRadius = 3.0,
      nodeRadiusVariance = 0.5,
      nodeColor = ''rgba(80, 130, 200, 0.3)'',
      activeNodeColor = ''rgba(220, 245, 255, 1)'',
      nodePulseMagnitude = 1.0,
      nodePulseSpeed = 0.05,
      connectionColor = ''rgba(80, 130, 200, 0.1)'',
      activeConnectionColors =
        [''rgba(100, 180, 255, 0.7)'', ''rgba(160, 220, 255, 0.85)'',
         ''rgba(220, 250, 255, 0.95)'', ''rgba(255, 255, 255, 0.9)''],
      connectionWidth = 0.5,
      activeConnectionWidth = 1.5,
      connectionGlowBlur = 4,
      connectionGlowColor = ''rgba(150, 220, 255, 0.2)'',
      inputActivationProbability = 0.02,
      signalPropagationSpeed = 1.0,
      activationThreshold = 0.6,
      activationBoost = 1.5,
      decayRate = 0.04,
      minActivationLevel = 0.01,
      maxConnectionsPerNode = 5,
      useCurves = False\<rparr>"

text \<open>
  Lines 5-60 and 332, for a canvas that is found: the closure's variables as they are
  declared (the parsed colours have no value yet and are assigned by \<open>processColors\<close>
  before they are read), then \<open>setup(); start();\<close>. \<open>options\<close> overrides the defaults as
  \<open>newOptions\<close> does above.
\<close>

definition unassigned :: color where
  "unassigned = \<lparr>red = 0, green = 0, blue = 0, alpha = 0\<rparr>"

definition declared :: "(config \<Rightarrow> config) \<Rightarrow> engine" where
  "declared options =
     \<lparr>config = options defaultConfig,
      nodes = [],
      animationFrameId = None,
      nodeMap = Map.empty,
      nextNodeId = 0,
      parsedNodeColor = unassigned,
      parsedActiveNodeColor = unassigned,
      parsedConnectionColor = unassigned,
      parsedActiveConnectionColors = [],
      canvasWidth = 0,
      canvasHeight = 0,
      rafLast = 0,
      rafPending = [],
      resizeListening = False\<rparr>"

definition createNeuralNetworkAnimation :: "host \<Rightarrow> (config \<Rightarrow> config) \<Rightarrow> error + engine" where
  "createNeuralNetworkAnimation h options =
     (case setup_fn h (declared options) of Inl e \<Rightarrow> Inl e | Inr s \<Rightarrow> start h s)"

section \<open>The notions of the specification\<close>

text \<open>
  The assumption on the sort of line 147: what it returns is a rearrangement of the array
  it is given. The order it leaves is the host's own, as the comparison function answers
  at random.
\<close>

definition rearranges :: "host \<Rightarrow> bool" where
  "rearranges h \<longleftrightarrow> (\<forall>sourceId xs. mset (shuffle h sourceId xs) = mset xs)"

text \<open>
  The signal one source node sends to the node at position \<open>j\<close>: its level times the
  propagation speed for each of its connections whose target is that node, when its
  level is above \<open>minActivationLevel\<close>; and the sum of these over all source nodes.
\<close>

definition signalFrom :: "config \<Rightarrow> (nat \<rightharpoonup> nat) \<Rightarrow> node \<Rightarrow> nat \<Rightarrow> real" where
  "signalFrom cfg nm src j =
     (if activationLevel src > minActivationLevel cfg
      then (\<Sum>c\<leftarrow>connections src.
              if nm (targetId c) = Some j
              then activationLevel src * signalPropagationSpeed cfg else 0)
      else 0)"

definition expectedSignal :: "config \<Rightarrow> (nat \<rightharpoonup> nat) \<Rightarrow> node list \<Rightarrow> nat \<Rightarrow> real" where
  "expectedSignal cfg nm ns j = (\<Sum>src\<leftarrow>ns. signalFrom cfg nm src j)"

text \<open>
  The number of nodes in the layer after layer \<open>li\<close>; a node whose connections all lead to
  the next layer; a node whose fan-out is within the bound.
\<close>

definition nextLayerSize :: "node list \<Rightarrow> nat \<Rightarrow> nat" where
  "nextLayerSize ns li = length (filter (\<lambda>m. layerIndex m = Suc li) ns)"

definition forwardFrom :: "node list \<Rightarrow> node \<Rightarrow> bool" where
  "forwardFrom ns n \<longleftrightarrow>
     (\<forall>c\<in>set (connections n).
        targetId c < length ns \<and> layerIndex (ns ! targetId c) = Suc (layerIndex n))"

definition fanOutBounded :: "config \<Rightarrow> node list \<Rightarrow> node \<Rightarrow> bool" where
  "fanOutBounded cfg ns n \<longleftrightarrow>
     length (connections n) \<le> min (maxConnectionsPerNode cfg) (nextLayerSize ns (layerIndex n))"

text \<open>The connections as a relation on positions of \<open>nodes\<close>.\<close>

definition edges :: "engine \<Rightarrow> (nat \<times> nat) set" where
  "edges s =
     {(i, t). i < length (nodes s) \<and>
        (\<exists>c\<in>set (connections (nodes s ! i)). nodeMap s (targetId c) = Some t)}"

text \<open>The part of a node that is its place in the topology.\<close>

definition topologyOf :: "node \<Rightarrow> nat \<times> real \<times> real \<times> nat \<times> real \<times> connection list" where
  "topologyOf n = (nodeId n, nodeX n, nodeY n, layerIndex n, baseRadius n, connections n)"

text \<open>A colour whose channels are in the range of a byte.\<close>

definition validColor :: "color \<Rightarrow> bool" where
  "validColor c \<longleftrightarrow>
     0 \<le> red c \<and> red c \<le> 255 \<and> 0 \<le> green c \<and> green c \<le> 255 \<and> 0 \<le> blue c \<and> blue c \<le> 255"

text \<open>
  What holds of the connections in every state the engine can be in: each leads, through
  \<open>nodeMap\<close>, to the node of that id, which is in the next layer.
\<close>

definition sound :: "engine \<Rightarrow> bool" where
  "sound s \<longleftrightarrow>
     (\<forall>i<length (nodes s).
        \<forall>c\<in>set (connections (nodes s ! i)).
           nodeMap s (targetId c) = Some (targetId c) \<and> targetId c < length (nodes s) \<and>
           layerIndex (nodes s ! targetId c) = Suc (layerIndex (nodes s ! i)))"

text \<open>A colour with its channels clamped to the range of a byte, as \<open>lerpColor\<close> clamps them.\<close>

definition clampChannels :: "color \<Rightarrow> color" where
  "clampChannels c =
     c\<lparr>red := max 0 (min 255 (red c)), green := max 0 (min 255 (green c)),
       blue := max 0 (min 255 (blue c))\<rparr>"

text \<open>
  The states the engine can be in: the one \<open>createNeuralNetworkAnimation\<close> returns with,
  and those that a frame, a call of \<open>start\<close>, \<open>stop\<close> or \<open>setConfig\<close>, or a \<open>resize\<close> event
  leads to from there.
\<close>

inductive reachable :: "engine \<Rightarrow> bool" where
  created: "rearranges h \<Longrightarrow> createNeuralNetworkAnimation h options = Inr s \<Longrightarrow> reachable s"
| framed: "reachable s \<Longrightarrow> reachable (frame h s)"
| started: "reachable s \<Longrightarrow> rearranges h \<Longrightarrow> start h s = Inr s' \<Longrightarrow> reachable s'"
| stopped: "reachable s \<Longrightarrow> reachable (stop s)"
| resized: "reachable s \<Longrightarrow> rearranges h \<Longrightarrow> resizeListening s \<Longrightarrow>
            handleResize h s = Inr s' \<Longrightarrow> reachable s'"
| configured: "reachable s \<Longrightarrow> rearranges h \<Longrightarrow> setConfig h newOptions s = Inr s' \<Longrightarrow>
            reachable s'"

section \<open>Concrete inputs\<close>

text \<open>
  \<open>parseFloat\<close> on a decimal literal (digits, then possibly a dot and digits), the value of
  which is that of its digits.
\<close>

definition decimal :: "string \<Rightarrow> real" where
  "decimal t =
     (let whole = takeWhile isDigit t;
          frac = (case dropWhile isDigit t of CHR ''.'' # u \<Rightarrow> takeWhile isDigit u | _ \<Rightarrow> [])
      in of_int (parseInt whole) + of_int (parseInt frac) / 10 ^ length frac)"

text \<open>
  A host whose window is 800 by 600, whose random draws are all \<open>1/2\<close> but the one of line
  195, which is too large for an input node to fire, and whose sort leaves the array as
  it is.
\<close>

definition quietHost :: host where
  "quietHost =
     \<lparr>innerWidth = 800, innerHeight = 600, now = 0, parseFloat = decimal,
      randRadius = (\<lambda>_. 1 / 2), randX = (\<lambda>_. 1 / 2), randY = (\<lambda>_. 1 / 2),
      randFire = (\<lambda>_. 1), shuffle = (\<lambda>_ xs. xs)\<rparr>"

text \<open>
  The engine of the layers \<open>[1, 1]\<close> with the default configuration otherwise: an input
  node of level \<open>a0\<close> connected to an output node of level \<open>a1\<close>.
\<close>

definition pairOptions :: "config \<Rightarrow> config" where
  "pairOptions c = c\<lparr>layers := [1, 1]\<rparr>"

definition pairNodes :: "real \<Rightarrow> real \<Rightarrow> node list" where
  "pairNodes a0 a1 =
     [\<lparr>nodeId = 0, nodeX = 60, nodeY = 300, baseRadius = 3, currentRadius = 3,
       layerIndex = 0, activationLevel = a0, incomingSignal = 0,
       connections = [\<lparr>targetId = 1\<rparr>]\<rparr>,
      \<lparr>nodeId = 1, nodeX = 740, nodeY = 300, baseRadius = 3, currentRadius = 3,
       layerIndex = 1, activationLevel = a1, incomingSignal = 0,
       connections = []\<rparr>]"

definition pairEngine :: "real \<Rightarrow> real \<Rightarrow> engine" where
  "pairEngine a0 a1 =
     (declared pairOptions)
       \<lparr>nodes := pairNodes a0 a1, nodeMap := [0 \<mapsto> 0, 1 \<mapsto> 1], nextNodeId := 2\<rparr>"

text \<open>
  Options that empty the palette, that give the dim connection colour a red channel of
  300, that ask for the layers \<open>[2, 3, 1]\<close> with at most 2 connections per node, and that
  ask for the layers \<open>[1, 1]\<close> with the activation threshold 0.
\<close>

definition zeroThresholdOptions :: "config \<Rightarrow> config" where
  "zeroThresholdOptions c = c\<lparr>layers := [1, 1], activationThreshold := 0\<rparr>"

definition noPaletteOptions :: "config \<Rightarrow> config" where
  "noPaletteOptions c = c\<lparr>activeConnectionColors := []\<rparr>"

definition overflowOptions :: "config \<Rightarrow> config" where
  "overflowOptions c = c\<lparr>connectionColor := ''rgba(300, 0, 0, 0.1)''\<rparr>"

definition threeOptions :: "config \<Rightarrow> config" where
  "threeOptions c = c\<lparr>layers := [2, 3, 1], maxConnectionsPerNode := 2\<rparr>"

section \<open>Auxiliary notions of the proofs\<close>

text \<open>
  The connections line 150 pushes for the source \<open>p\<close>; the array \<open>nodes\<close> after all sources
  of \<open>prev\<close> had theirs pushed; the x coordinate of a layer and the nodes the loop of line
  122 creates for it; the engine as lines 101-106 leave it; and the invariant of the loop
  over the layers, \<open>L\<close> being the index of the layer to build next.
\<close>

definition made :: "config \<Rightarrow> host \<Rightarrow> nat list \<Rightarrow> nat \<Rightarrow> connection list" where
  "made cfg h cur p =
     map (\<lambda>t. \<lparr>targetId = t\<rparr>)
       (take (min (maxConnectionsPerNode cfg) (length (shuffle h p cur))) (shuffle h p cur))"

definition connected :: "config \<Rightarrow> host \<Rightarrow> nat list \<Rightarrow> nat list \<Rightarrow> node list \<Rightarrow> node list" where
  "connected cfg h cur prev ns =
     map (\<lambda>(i, n). if i \<in> set prev then n\<lparr>connections := connections n @ made cfg h cur i\<rparr> else n)
       (enumerate 0 ns)"

definition layerXOf :: "engine \<Rightarrow> nat \<Rightarrow> real" where
  "layerXOf s li =
     (let cfg = config s;
          layerCount = length (layers cfg);
          totalWidth = canvasWidth s * hSpacingMultiplier cfg;
          startX = (canvasWidth s - totalWidth) / 2;
          layerSpacing = (if layerCount > 1 then totalWidth / (real layerCount - 1) else 0)
      in startX + real li * layerSpacing)"

definition layerNodes :: "host \<Rightarrow> engine \<Rightarrow> nat \<Rightarrow> nat \<Rightarrow> node list" where
  "layerNodes h s li nc =
     map (\<lambda>i. newNode (config s) h (canvasHeight s) (layerXOf s li) nc li (length (nodes s) + i) i)
       [0..<nc]"

definition cleared :: "host \<Rightarrow> engine \<Rightarrow> engine" where
  "cleared h s =
     (processColors h (s\<lparr>canvasWidth := innerWidth h, canvasHeight := innerHeight h\<rparr>))
       \<lparr>nodes := [], nodeMap := Map.empty, nextNodeId := 0\<rparr>"

definition wired :: "host \<Rightarrow> nat \<Rightarrow> engine \<Rightarrow> nat list \<Rightarrow> bool" where
  "wired h L s prev \<longleftrightarrow>
     nextNodeId s = length (nodes s) \<and>
     (\<forall>i<length (nodes s).
        nodeMap s i = Some i \<and> nodeId (nodes s ! i) = i \<and> layerIndex (nodes s ! i) < L \<and>
        activationLevel (nodes s ! i) = 0) \<and>
     distinct prev \<and>
     (\<forall>p\<in>set prev. p < length (nodes s) \<and> Suc (layerIndex (nodes s ! p)) = L) \<and>
     (\<forall>i<length (nodes s). Suc (layerIndex (nodes s ! i)) = L \<longrightarrow> connections (nodes s ! i) = []) \<and>
     (rearranges h \<longrightarrow>
        (\<forall>i<length (nodes s).
           forwardFrom (nodes s) (nodes s ! i) \<and> fanOutBounded (config s) (nodes s) (nodes s ! i)))"

section \<open>The propagation phase\<close>

lemma addSignal_length [simp]: "length (addSignal nm v c ns) = length ns"
  by (simp add: addSignal_def split: option.split)

lemma addSignal_nth:
  "j < length ns \<Longrightarrow>
   addSignal nm v c ns ! j =
     (ns ! j)\<lparr>incomingSignal := incomingSignal (ns ! j) + (if nm (targetId c) = Some j then v else 0)\<rparr>"
  by (auto simp: addSignal_def nth_list_update split: option.split)

lemma fold_addSignal_length [simp]: "length (fold (addSignal nm v) cs ns) = length ns"
  by (induction cs arbitrary: ns) simp_all

lemma fold_addSignal_nth:
  "j < length ns \<Longrightarrow>
   fold (addSignal nm v) cs ns ! j =
     (ns ! j)\<lparr>incomingSignal := incomingSignal (ns ! j)
        + (\<Sum>c\<leftarrow>cs. if nm (targetId c) = Some j then v else 0)\<rparr>"
proof (induction cs arbitrary: ns)
  case Nil
  then show ?case by simp
next
  case (Cons c cs)
  then show ?case by (simp add: addSignal_nth add.assoc)
qed

lemma signalFrom_incomingSignal [simp]:
  "signalFrom cfg nm (n\<lparr>incomingSignal := v\<rparr>) j = signalFrom cfg nm n j"
  by (simp add: signalFrom_def cong: if_cong)

lemma propagateFrom_length [simp]: "length (propagateFrom cfg nm i ns) = length ns"
  by (simp add: propagateFrom_def Let_def)

lemma propagateFrom_nth:
  "j < length ns \<Longrightarrow>
   propagateFrom cfg nm i ns ! j =
     (ns ! j)\<lparr>incomingSignal := incomingSignal (ns ! j) + signalFrom cfg nm (ns ! i) j\<rparr>"
  by (simp add: propagateFrom_def Let_def fold_addSignal_nth signalFrom_def)

lemma fold_propagateFrom_length [simp]:
  "length (fold (propagateFrom cfg nm) is ns) = length ns"
  by (induction "is" arbitrary: ns) simp_all

lemma fold_propagateFrom_nth:
  "j < length ns \<Longrightarrow> \<forall>i\<in>set is. i < length ns \<Longrightarrow>
   fold (propagateFrom cfg nm) is ns ! j =
     (ns ! j)\<lparr>incomingSignal := incomingSignal (ns ! j)
        + (\<Sum>i\<leftarrow>is. signalFrom cfg nm (ns ! i) j)\<rparr>"
proof (induction "is" arbitrary: ns)
  case Nil
  then show ?case by simp
next
  case (Cons i "is")
  have same: "map (\<lambda>k. signalFrom cfg nm (propagateFrom cfg nm i ns ! k) j) is
            = map (\<lambda>k. signalFrom cfg nm (ns ! k) j) is"
    using Cons.prems by (intro map_cong) (simp_all add: propagateFrom_nth)
  show ?case
    using Cons.prems Cons.IH [of "propagateFrom cfg nm i ns"]
    by (simp add: same propagateFrom_nth add.assoc)
qed

lemma propagate_length [simp]: "length (propagate cfg nm ns) = length ns"
  by (simp add: propagate_def resetSignals_def)

lemma propagate_nth:
  assumes "j < length ns"
  shows "propagate cfg nm ns ! j = (ns ! j)\<lparr>incomingSignal := expectedSignal cfg nm ns j\<rparr>"
proof -
  have "map (\<lambda>i. signalFrom cfg nm (resetSignals ns ! i) j) [0..<length ns]
      = map (\<lambda>i. signalFrom cfg nm (ns ! i) j) [0..<length ns]"
    by (intro map_cong) (simp_all add: resetSignals_def)
  also have "\<dots> = map (\<lambda>src. signalFrom cfg nm src j) ns"
    using map_map [of "\<lambda>src. signalFrom cfg nm src j" "(!) ns" "[0..<length ns]"]
    by (simp add: o_def map_nth)
  finally have sums: "(\<Sum>i\<leftarrow>[0..<length ns]. signalFrom cfg nm (resetSignals ns ! i) j)
      = expectedSignal cfg nm ns j"
    by (simp add: expectedSignal_def)
  have "propagate cfg nm ns ! j =
     (resetSignals ns ! j)\<lparr>incomingSignal := incomingSignal (resetSignals ns ! j)
        + (\<Sum>i\<leftarrow>[0..<length ns]. signalFrom cfg nm (resetSignals ns ! i) j)\<rparr>"
    unfolding propagate_def using assms
    by (intro fold_propagateFrom_nth) (simp_all add: resetSignals_def)
  moreover have "resetSignals ns ! j = (ns ! j)\<lparr>incomingSignal := 0\<rparr>"
    using assms by (simp add: resetSignals_def)
  ultimately show ?thesis by (simp add: sums)
qed

lemma updateNodes_length [simp]: "length (updateNodes cfg h ns) = length ns"
  by (simp add: updateNodes_def)

lemma updateNodes_nth:
  "i < length ns \<Longrightarrow> updateNodes cfg h ns ! i = updateNode cfg h i (ns ! i)"
  by (simp add: updateNodes_def nth_enumerate_eq)

lemma update_length [simp]: "length (nodes (update h s)) = length (nodes s)"
  by (simp add: update_def)

lemma update_nth:
  "i < length (nodes s) \<Longrightarrow>
   nodes (update h s) ! i =
     updateNode (config s) h i
       ((nodes s ! i)\<lparr>incomingSignal := expectedSignal (config s) (nodeMap s) (nodes s) i\<rparr>)"
  by (simp add: update_def updateNodes_nth propagate_nth)


section \<open>The loop over the layers\<close>

lemma fold_createNode:
  "fold (createNode cfg h lx nc li) [0..<n] (s, cur0) =
     (s\<lparr>nextNodeId := nextNodeId s + n,
        nodes := nodes s @ map (\<lambda>i. newNode cfg h (canvasHeight s) lx nc li (nextNodeId s + i) i) [0..<n],
        nodeMap := (\<lambda>k. if nextNodeId s \<le> k \<and> k < nextNodeId s + n
                         then Some (length (nodes s) + (k - nextNodeId s)) else nodeMap s k)\<rparr>,
      cur0 @ [nextNodeId s..<nextNodeId s + n])"
proof (induction n)
  case 0
  have "(\<lambda>k. if nextNodeId s \<le> k \<and> k < nextNodeId s
             then Some (length (nodes s) + (k - nextNodeId s)) else nodeMap s k) = nodeMap s"
    by (rule ext) auto
  then show ?case by simp
next
  case (Suc n)
  have maps: "(\<lambda>k. if nextNodeId s \<le> k \<and> k < nextNodeId s + n
                  then Some (length (nodes s) + (k - nextNodeId s)) else nodeMap s k)
               (nextNodeId s + n \<mapsto> length (nodes s) + n)
             = (\<lambda>k. if nextNodeId s \<le> k \<and> k < nextNodeId s + Suc n
                  then Some (length (nodes s) + (k - nextNodeId s)) else nodeMap s k)"
    by (rule ext) auto
  have "fold (createNode cfg h lx nc li) [0..<Suc n] (s, cur0)
      = createNode cfg h lx nc li n (fold (createNode cfg h lx nc li) [0..<n] (s, cur0))"
    by simp
  also have "\<dots> = createNode cfg h lx nc li n
     (s\<lparr>nextNodeId := nextNodeId s + n,
        nodes := nodes s @ map (\<lambda>i. newNode cfg h (canvasHeight s) lx nc li (nextNodeId s + i) i) [0..<n],
        nodeMap := (\<lambda>k. if nextNodeId s \<le> k \<and> k < nextNodeId s + n
                         then Some (length (nodes s) + (k - nextNodeId s)) else nodeMap s k)\<rparr>,
      cur0 @ [nextNodeId s..<nextNodeId s + n])"
    by (simp only: Suc)
  also have "\<dots> = (s\<lparr>nextNodeId := nextNodeId s + Suc n,
        nodes := nodes s @ map (\<lambda>i. newNode cfg h (canvasHeight s) lx nc li (nextNodeId s + i) i) [0..<Suc n],
        nodeMap := (\<lambda>k. if nextNodeId s \<le> k \<and> k < nextNodeId s + Suc n
                         then Some (length (nodes s) + (k - nextNodeId s)) else nodeMap s k)\<rparr>,
      cur0 @ [nextNodeId s..<nextNodeId s + Suc n])"
    by (simp add: createNode_def Let_def maps [simplified])
  finally show ?case .
qed

lemma connectFrom_result:
  "nodeMap s p = Some r \<Longrightarrow>
   connectFrom cfg h cur p s =
     Inr (s\<lparr>nodes := (nodes s)[r := (nodes s ! r)\<lparr>connections := connections (nodes s ! r) @ made cfg h cur p\<rparr>]\<rparr>)"
  by (simp add: connectFrom_def made_def Let_def)

lemma connected_length [simp]: "length (connected cfg h cur prev ns) = length ns"
  by (simp add: connected_def)

lemma connected_nth:
  "i < length ns \<Longrightarrow>
   connected cfg h cur prev ns ! i =
     (if i \<in> set prev then (ns ! i)\<lparr>connections := connections (ns ! i) @ made cfg h cur i\<rparr>
      else ns ! i)"
  by (simp add: connected_def nth_enumerate_eq)

lemma connectAll_result:
  "distinct prev \<Longrightarrow> \<forall>p\<in>set prev. nodeMap s p = Some p \<Longrightarrow>
   connectAll cfg h cur prev s = Inr (s\<lparr>nodes := connected cfg h cur prev (nodes s)\<rparr>)"
proof (induction prev arbitrary: s)
  case Nil
  have "connected cfg h cur [] (nodes s) = nodes s"
    by (rule nth_equalityI) (simp_all add: connected_nth)
  then show ?case by simp
next
  case (Cons p prev)
  let ?s' = "s\<lparr>nodes := (nodes s)[p := (nodes s ! p)\<lparr>connections := connections (nodes s ! p) @ made cfg h cur p\<rparr>]\<rparr>"
  have step: "connectFrom cfg h cur p s = Inr ?s'"
    using Cons.prems by (simp add: connectFrom_result)
  have rest: "connectAll cfg h cur prev ?s' = Inr (?s'\<lparr>nodes := connected cfg h cur prev (nodes ?s')\<rparr>)"
    using Cons.prems by (intro Cons.IH) simp_all
  have "connected cfg h cur prev (nodes ?s') = connected cfg h cur (p # prev) (nodes s)"
  proof (rule nth_equalityI)
    show "length (connected cfg h cur prev (nodes ?s')) = length (connected cfg h cur (p # prev) (nodes s))"
      by simp
  next
    fix i assume "i < length (connected cfg h cur prev (nodes ?s'))"
    then have i: "i < length (nodes s)" by simp
    show "connected cfg h cur prev (nodes ?s') ! i = connected cfg h cur (p # prev) (nodes s) ! i"
    proof (cases "i = p")
      case True
      with i Cons.prems(1) show ?thesis by (simp add: connected_nth)
    next
      case False
      with i show ?thesis by (simp add: connected_nth)
    qed
  qed
  then show ?case by (simp add: step rest)
qed

lemma connected_Nil [simp]: "connected cfg h cur [] ns = ns"
  by (rule nth_equalityI) (simp_all add: connected_nth)

lemma buildLayer_result:
  assumes fresh: "nextNodeId s = length (nodes s)"
    and dist: "distinct prev"
    and refs: "\<forall>p\<in>set prev. p < length (nodes s) \<and> nodeMap s p = Some p"
    and first: "li = 0 \<longrightarrow> prev = []"
  shows "buildLayer h li nc (s, prev) =
     Inr (s\<lparr>nextNodeId := length (nodes s) + nc,
             nodes := connected (config s) h [length (nodes s)..<length (nodes s) + nc] prev
                        (nodes s @ layerNodes h s li nc),
             nodeMap := (\<lambda>k. if length (nodes s) \<le> k \<and> k < length (nodes s) + nc
                              then Some k else nodeMap s k)\<rparr>,
          [length (nodes s)..<length (nodes s) + nc])"
proof -
  let ?N = "length (nodes s)"
  let ?cur = "[?N..<?N + nc]"
  let ?nm = "\<lambda>k. if ?N \<le> k \<and> k < ?N + nc then Some k else nodeMap s k"
  let ?s1 = "s\<lparr>nextNodeId := ?N + nc, nodes := nodes s @ layerNodes h s li nc, nodeMap := ?nm\<rparr>"
  have nm: "(\<lambda>k. if nextNodeId s \<le> k \<and> k < nextNodeId s + nc
                 then Some (length (nodes s) + (k - nextNodeId s)) else nodeMap s k) = ?nm"
    by (rule ext) (simp add: fresh)
  have created: "fold (createNode (config s) h (layerXOf s li) nc li) [0..<nc] (s, []) = (?s1, ?cur)"
    by (simp only: fold_createNode nm) (simp add: layerNodes_def fresh)
  have wiredUp: "connectAll (config s) h ?cur prev ?s1
      = Inr (?s1\<lparr>nodes := connected (config s) h ?cur prev (nodes ?s1)\<rparr>)"
    using dist refs by (intro connectAll_result) auto
  have "buildLayer h li nc (s, prev) =
     (case (if li > 0 then connectAll (config s) h ?cur prev ?s1 else Inr ?s1) of
        Inl e \<Rightarrow> Inl e | Inr s2 \<Rightarrow> Inr (s2, ?cur))"
    unfolding buildLayer_def using created by (simp add: Let_def layerXOf_def)
  also have "\<dots> = Inr (?s1\<lparr>nodes := connected (config s) h ?cur prev (nodes ?s1)\<rparr>, ?cur)"
    using first by (cases "li > 0") (simp_all add: wiredUp)
  finally show ?thesis by simp
qed

lemma nextLayerSize_map:
  "nextLayerSize ns li = length (filter (\<lambda>l. l = Suc li) (map layerIndex ns))"
  by (simp add: nextLayerSize_def filter_map o_def)

lemma layerIndex_connected [simp]:
  "map layerIndex (connected cfg h cur prev ns) = map layerIndex ns"
  by (rule nth_equalityI) (simp_all add: connected_nth)

lemma layerNodes_length [simp]: "length (layerNodes h s li nc) = nc"
  by (simp add: layerNodes_def)

lemma layerIndex_layerNodes [simp]:
  "map layerIndex (layerNodes h s li nc) = replicate nc li"
  by (rule nth_equalityI) (simp_all add: layerNodes_def newNode_def Let_def)

lemma made_length:
  "rearranges h \<Longrightarrow> length (made cfg h cur p) = min (maxConnectionsPerNode cfg) (length cur)"
  unfolding made_def rearranges_def by (simp add: mset_eq_length [of "shuffle h p cur" cur])

lemma made_targets:
  assumes "rearranges h" and "c \<in> set (made cfg h cur p)"
  shows "targetId c \<in> set cur"
proof -
  from assms(2) obtain t where t: "t \<in> set (take (min (maxConnectionsPerNode cfg)
      (length (shuffle h p cur))) (shuffle h p cur))" and c: "c = \<lparr>targetId = t\<rparr>"
    by (auto simp: made_def)
  from t have "t \<in> set (shuffle h p cur)" by (rule in_set_takeD)
  moreover have "set (shuffle h p cur) = set cur"
    using assms(1) unfolding rearranges_def by (metis mset_eq_setD)
  ultimately show ?thesis using c by simp
qed

lemma buildLayer_wired:
  assumes w: "wired h L s prev"
  shows "\<exists>s' cur. buildLayer h L nc (s, prev) = Inr (s', cur) \<and> wired h (Suc L) s' cur \<and>
           s' = s\<lparr>nextNodeId := nextNodeId s', nodes := nodes s', nodeMap := nodeMap s'\<rparr>"
proof -
  let ?N = "length (nodes s)"
  let ?cur = "[?N..<?N + nc]"
  let ?ns1 = "nodes s @ layerNodes h s L nc"
  let ?ns2 = "connected (config s) h ?cur prev ?ns1"
  let ?nm = "\<lambda>k. if ?N \<le> k \<and> k < ?N + nc then Some k else nodeMap s k"
  let ?s' = "s\<lparr>nextNodeId := ?N + nc, nodes := ?ns2, nodeMap := ?nm\<rparr>"
  from w have fresh: "nextNodeId s = ?N"
    and olds: "\<And>i. i < ?N \<Longrightarrow> nodeMap s i = Some i \<and> nodeId (nodes s ! i) = i \<and>
                  layerIndex (nodes s ! i) < L \<and> activationLevel (nodes s ! i) = 0"
    and dist: "distinct prev"
    and prevs: "\<And>p. p \<in> set prev \<Longrightarrow> p < ?N \<and> Suc (layerIndex (nodes s ! p)) = L"
    and bare: "\<And>i. i < ?N \<Longrightarrow> Suc (layerIndex (nodes s ! i)) = L \<Longrightarrow> connections (nodes s ! i) = []"
    and topo: "\<And>i. rearranges h \<Longrightarrow> i < ?N \<Longrightarrow>
                  forwardFrom (nodes s) (nodes s ! i) \<and> fanOutBounded (config s) (nodes s) (nodes s ! i)"
    unfolding wired_def by blast+
  have first: "L = 0 \<longrightarrow> prev = []"
    using prevs by (cases prev) auto
  have result: "buildLayer h L nc (s, prev) = Inr (?s', ?cur)"
    using fresh dist prevs olds first by (intro buildLayer_result) auto
  have len: "length ?ns2 = ?N + nc"
    by (simp add: layerNodes_def)
  have old: "?ns2 ! i = (if i \<in> set prev
        then (nodes s ! i)\<lparr>connections := made (config s) h ?cur i\<rparr> else nodes s ! i)"
    if "i < ?N" for i
    using that prevs [of i] bare [of i]
    by (auto simp: connected_nth layerNodes_def nth_append)
  have new: "?ns2 ! i = newNode (config s) h (canvasHeight s) (layerXOf s L) nc L i (i - ?N)"
    if "?N \<le> i" "i < ?N + nc" for i
  proof -
    have "i \<notin> set prev" using prevs [of i] that by auto
    then show ?thesis using that
      by (simp add: connected_nth layerNodes_def nth_append)
  qed
  have lay: "map layerIndex ?ns2 = map layerIndex (nodes s) @ replicate nc L"
    by simp
  have layOld: "layerIndex (?ns2 ! i) = layerIndex (nodes s ! i)" if "i < ?N" for i
    using that by (simp add: old)
  have layNew: "layerIndex (?ns2 ! i) = L" if "?N \<le> i" "i < ?N + nc" for i
    using that by (simp add: new newNode_def Let_def)
  have noneOld: "filter (\<lambda>l. l = L) (map layerIndex (nodes s)) = []"
  proof -
    have "l \<noteq> L" if "l \<in> set (map layerIndex (nodes s))" for l
    proof -
      from that obtain i where "i < ?N" "l = layerIndex (nodes s ! i)"
        by (auto simp: in_set_conv_nth)
      with olds [of i] show ?thesis by simp
    qed
    then show ?thesis by (simp only: filter_empty_conv) blast
  qed
  have sizeL: "nextLayerSize ?ns2 li = nc" if "Suc li = L" for li
    using that noneOld by (simp add: nextLayerSize_map)
  have sizeOld: "nextLayerSize ?ns2 li = nextLayerSize (nodes s) li" if "Suc li \<noteq> L" for li
    using that by (simp add: nextLayerSize_map)
  have a: "nextNodeId ?s' = length (nodes ?s')"
    by (simp add: len)
  have b: "nodeMap ?s' i = Some i \<and> nodeId (nodes ?s' ! i) = i \<and>
           layerIndex (nodes ?s' ! i) < Suc L \<and> activationLevel (nodes ?s' ! i) = 0"
    if "i < length (nodes ?s')" for i
  proof (cases "i < ?N")
    case True
    with olds [of i] show ?thesis by (simp add: old)
  next
    case False
    with that len have "?N \<le> i" "i < ?N + nc" by simp_all
    then show ?thesis by (simp add: new newNode_def Let_def)
  qed
  have c: "distinct ?cur \<and> (\<forall>p\<in>set ?cur. p < length (nodes ?s') \<and> Suc (layerIndex (nodes ?s' ! p)) = Suc L)"
    using layNew by (simp add: len)
  have d: "connections (nodes ?s' ! i) = []"
    if "i < length (nodes ?s')" "Suc (layerIndex (nodes ?s' ! i)) = Suc L" for i
  proof (cases "i < ?N")
    case True
    with that olds [of i] layOld [of i] show ?thesis by simp
  next
    case False
    with that len have "?N \<le> i" "i < ?N + nc" by simp_all
    then show ?thesis by (simp add: new newNode_def Let_def)
  qed
  have e: "forwardFrom (nodes ?s') (nodes ?s' ! i) \<and> fanOutBounded (config ?s') (nodes ?s') (nodes ?s' ! i)"
    if r: "rearranges h" and i: "i < length (nodes ?s')" for i
  proof (cases "i < ?N")
    case False
    with i len have "?N \<le> i" "i < ?N + nc" by simp_all
    then show ?thesis
      by (simp add: new newNode_def Let_def forwardFrom_def fanOutBounded_def)
  next
    case True
    show ?thesis
    proof (cases "i \<in> set prev")
      case True
      then have iN: "i < ?N" and iL: "Suc (layerIndex (nodes s ! i)) = L"
        using prevs [of i] by simp_all
      have node: "?ns2 ! i = (nodes s ! i)\<lparr>connections := made (config s) h ?cur i\<rparr>"
        using True iN by (simp add: old)
      have "forwardFrom (nodes ?s') (nodes ?s' ! i)"
        unfolding forwardFrom_def
      proof
        fix c assume "c \<in> set (connections (nodes ?s' ! i))"
        then have "c \<in> set (made (config s) h ?cur i)"
          by (simp add: node)
        then have "targetId c \<in> set ?cur"
          using r by (rule made_targets [rotated])
        then have t: "?N \<le> targetId c" "targetId c < ?N + nc" by simp_all
        then show "targetId c < length (nodes ?s') \<and>
                   layerIndex (nodes ?s' ! targetId c) = Suc (layerIndex (nodes ?s' ! i))"
          using layNew [OF t] iL by (simp add: len node)
      qed
      moreover have "fanOutBounded (config ?s') (nodes ?s') (nodes ?s' ! i)"
        using sizeL [of "layerIndex (nodes s ! i)"] iL r
        by (simp add: fanOutBounded_def node made_length)
      ultimately show ?thesis ..
    next
      case False
      with \<open>i < ?N\<close> have node: "?ns2 ! i = nodes s ! i" by (simp add: old)
      from topo [OF r \<open>i < ?N\<close>] have fw: "forwardFrom (nodes s) (nodes s ! i)"
        and fb: "fanOutBounded (config s) (nodes s) (nodes s ! i)" by simp_all
      have "forwardFrom (nodes ?s') (nodes ?s' ! i)"
        unfolding forwardFrom_def
      proof
        fix c assume "c \<in> set (connections (nodes ?s' ! i))"
        then have "targetId c < ?N \<and> layerIndex (nodes s ! targetId c) = Suc (layerIndex (nodes s ! i))"
          using fw by (simp add: node forwardFrom_def)
        then show "targetId c < length (nodes ?s') \<and>
                   layerIndex (nodes ?s' ! targetId c) = Suc (layerIndex (nodes ?s' ! i))"
          using layOld [of "targetId c"] by (simp add: len node)
      qed
      moreover have "fanOutBounded (config ?s') (nodes ?s') (nodes ?s' ! i)"
      proof (cases "Suc (layerIndex (nodes s ! i)) = L")
        case True
        with bare [OF \<open>i < ?N\<close>] show ?thesis by (simp add: fanOutBounded_def node)
      next
        case False
        with fb sizeOld [of "layerIndex (nodes s ! i)"] show ?thesis
          by (simp add: fanOutBounded_def node)
      qed
      ultimately show ?thesis ..
    qed
  qed
  have "wired h (Suc L) ?s' ?cur"
    unfolding wired_def using a b c d e by blast
  moreover have "?s' = s\<lparr>nextNodeId := nextNodeId ?s', nodes := nodes ?s', nodeMap := nodeMap ?s'\<rparr>"
    by simp
  ultimately show ?thesis using result by blast
qed

lemma buildLayers_wired:
  "wired h L s prev \<Longrightarrow>
   \<exists>s' prev'. buildLayers h (enumerate L ls) (s, prev) = Inr (s', prev') \<and>
      wired h (L + length ls) s' prev' \<and>
      s' = s\<lparr>nextNodeId := nextNodeId s', nodes := nodes s', nodeMap := nodeMap s'\<rparr>"
proof (induction ls arbitrary: L s prev)
  case Nil
  then show ?case by simp
next
  case (Cons nc ls)
  from buildLayer_wired [OF Cons.prems, of nc] obtain s1 cur
    where step: "buildLayer h L nc (s, prev) = Inr (s1, cur)"
      and w1: "wired h (Suc L) s1 cur"
      and s1: "s1 = s\<lparr>nextNodeId := nextNodeId s1, nodes := nodes s1, nodeMap := nodeMap s1\<rparr>"
    by blast
  from Cons.IH [OF w1] obtain s' prev'
    where rest: "buildLayers h (enumerate (Suc L) ls) (s1, cur) = Inr (s', prev')"
      and w': "wired h (Suc L + length ls) s' prev'"
      and s': "s' = s1\<lparr>nextNodeId := nextNodeId s', nodes := nodes s', nodeMap := nodeMap s'\<rparr>"
    by blast
  have "s' = s\<lparr>nextNodeId := nextNodeId s', nodes := nodes s', nodeMap := nodeMap s'\<rparr>"
    by (subst s', subst s1) simp
  with step rest w' show ?case by simp
qed

lemma config_cleared [simp]: "config (cleared h s) = config s"
  by (simp add: cleared_def processColors_def Let_def)

lemma setup_result:
  "\<exists>s' prev. setup_fn h s = Inr s' \<and> wired h (length (layers (config s))) s' prev \<and>
      s' = (cleared h s)\<lparr>nextNodeId := nextNodeId s', nodes := nodes s', nodeMap := nodeMap s'\<rparr>"
proof -
  have "wired h 0 (cleared h s) []"
    by (simp add: wired_def cleared_def)
  from buildLayers_wired [OF this, of "layers (config s)"] obtain s' prev
    where run: "buildLayers h (enumerate 0 (layers (config s))) (cleared h s, []) = Inr (s', prev)"
      and w: "wired h (length (layers (config s))) s' prev"
      and s': "s' = (cleared h s)\<lparr>nextNodeId := nextNodeId s', nodes := nodes s', nodeMap := nodeMap s'\<rparr>"
    by auto
  have "setup_fn h s = Inr s'"
  proof -
    have "setup_fn h s =
      (case buildLayers h (enumerate 0 (layers (config (cleared h s)))) (cleared h s, []) of
         Inl e \<Rightarrow> Inl e | Inr (s3, _) \<Rightarrow> Inr s3)"
      by (simp add: setup_fn_def Let_def cleared_def)
    then show ?thesis using run by simp
  qed
  with w s' show ?thesis by blast
qed

section \<open>Facts about the concrete inputs\<close>

lemma pair_signal:
  "expectedSignal (config (pairEngine a0 a1)) (nodeMap (pairEngine a0 a1))
     (nodes (pairEngine a0 a1)) (Suc 0) = (if a0 > 1 / 100 then a0 else 0)"
  by (simp add: expectedSignal_def signalFrom_def pairEngine_def pairNodes_def declared_def
      pairOptions_def defaultConfig_def)

lemma pair_signal0:
  "expectedSignal (config (pairEngine a0 a1)) (nodeMap (pairEngine a0 a1))
     (nodes (pairEngine a0 a1)) 0 = 0"
  by (simp add: expectedSignal_def signalFrom_def pairEngine_def pairNodes_def declared_def
      pairOptions_def defaultConfig_def)

lemma pair_fields:
  "length (nodes (pairEngine a0 a1)) = 2"
  "layerIndex (nodes (pairEngine a0 a1) ! 0) = 0"
  "layerIndex (nodes (pairEngine a0 a1) ! Suc 0) = Suc 0"
  "activationLevel (nodes (pairEngine a0 a1) ! 0) = a0"
  "activationLevel (nodes (pairEngine a0 a1) ! Suc 0) = a1"
  "activationThreshold (config (pairEngine a0 a1)) = 6 / 10"
  "activationBoost (config (pairEngine a0 a1)) = 15 / 10"
  "decayRate (config (pairEngine a0 a1)) = 4 / 100"
  "minActivationLevel (config (pairEngine a0 a1)) = 1 / 100"
  "inputActivationProbability (config (pairEngine a0 a1)) = 2 / 100"
  "signalPropagationSpeed (config (pairEngine a0 a1)) = 1"
  by (simp_all add: pairEngine_def pairNodes_def declared_def pairOptions_def defaultConfig_def)

section \<open>The activation level after a tick\<close>

lemma update_level:
  "i < length (nodes s) \<Longrightarrow>
   activationLevel (nodes (update h s) ! i) =
     nextActivation (config s) (randFire h i)
       ((nodes s ! i)\<lparr>incomingSignal := expectedSignal (config s) (nodeMap s) (nodes s) i\<rparr>)"
  by (simp add: update_nth updateNode_def Let_def)




text \<open>
  C5, as amended. A node that gets no boost in a tick (an input node whose random draw
  does not fire, or another node whose accumulated signal \<open>S\<close> is below
  \<open>activationThreshold\<close>) ends the tick at \<open>max(0, level - decayRate)\<close> when its level was
  above \<open>minActivationLevel\<close>, and at \<open>max(0, level)\<close>, without decay, when it was not.
\<close>

theorem decay_without_boost:
  assumes "i < length (nodes s)"
    and "S = incomingSignal (propagate (config s) (nodeMap s) (nodes s) ! i)"
    and "(layerIndex (nodes s ! i) = 0 \<and> \<not> randFire h i < inputActivationProbability (config s)) \<or>
         (layerIndex (nodes s ! i) \<noteq> 0 \<and> S < activationThreshold (config s))"
  shows "activationLevel (nodes (update h s) ! i) =
           max 0 (if activationLevel (nodes s ! i) > minActivationLevel (config s)
                  then activationLevel (nodes s ! i) - decayRate (config s)
                  else activationLevel (nodes s ! i))"
  using assms by (auto simp: update_level propagate_nth nextActivation_def decayed_def Let_def)

text \<open>An input node at level 1 that does not fire ends the tick at 0.96.\<close>

theorem decay_without_boost_example:
  "activationLevel (nodes (update quietHost (pairEngine 1 0)) ! 0) = 96 / 100"
  using decay_without_boost [of 0 "pairEngine 1 0" 0 quietHost]
  by (simp add: propagate_nth pair_signal0 pair_fields quietHost_def)

text \<open>
  C5 as it is stated fails for a level that is positive and not above
  \<open>minActivationLevel\<close>: an input node at level 0.005 that does not fire keeps the level
  0.005, where a decrease by \<open>decayRate = 0.04\<close>, floored at 0, would give 0.
\<close>

theorem no_decay_at_or_below_minimum:
  "layerIndex (nodes (pairEngine (1 / 200) 0) ! 0) = 0 \<and>
   randFire quietHost 0 = 1 \<and>
   inputActivationProbability (config (pairEngine (1 / 200) 0)) = 2 / 100 \<and>
   activationLevel (nodes (pairEngine (1 / 200) 0) ! 0) = 1 / 200 \<and>
   activationLevel (nodes (update quietHost (pairEngine (1 / 200) 0)) ! 0) = 1 / 200 \<and>
   max 0 (activationLevel (nodes (pairEngine (1 / 200) 0) ! 0)
            - decayRate (config (pairEngine (1 / 200) 0))) = 0"
  by (simp add: update_level pair_signal0 pair_fields nextActivation_def decayed_def quietHost_def)

section \<open>What a tick leaves as it is\<close>

text \<open>
  C10. A call of \<open>update\<close> leaves the topology as it is: the array \<open>nodes\<close> has the same
  nodes in the same order, each with the \<open>id\<close>, \<open>x\<close>, \<open>y\<close>, \<open>layerIndex\<close>, \<open>baseRadius\<close> and
  \<open>connections\<close> it had, so that only \<open>activationLevel\<close>, \<open>incomingSignal\<close> and
  \<open>currentRadius\<close> can differ; \<open>nodeMap\<close>, the configuration and \<open>nextNodeId\<close> are as they
  were.
\<close>

theorem update_keeps_topology:
  "map topologyOf (nodes (update h s)) = map topologyOf (nodes s) \<and>
   nodeMap (update h s) = nodeMap s \<and> config (update h s) = config s \<and>
   nextNodeId (update h s) = nextNodeId s"
proof -
  have "map topologyOf (nodes (update h s)) = map topologyOf (nodes s)"
    by (rule nth_equalityI) (simp_all add: update_nth topologyOf_def updateNode_def Let_def)
  then show ?thesis by (simp add: update_def)
qed

section \<open>The topology that \<open>setup\<close> builds\<close>

lemma sound_cong: "sound s \<Longrightarrow> nodes s' = nodes s \<Longrightarrow> nodeMap s' = nodeMap s \<Longrightarrow> sound s'"
  by (simp add: sound_def)

lemma wired_sound:
  assumes "wired h L s prev" and "rearranges h"
  shows "sound s"
  unfolding sound_def
proof (intro allI impI conjI ballI)
  fix i c assume i: "i < length (nodes s)" and c: "c \<in> set (connections (nodes s ! i))"
  from assms i have fw: "forwardFrom (nodes s) (nodes s ! i)"
    unfolding wired_def by blast
  with c have t: "targetId c < length (nodes s)"
    and l: "layerIndex (nodes s ! targetId c) = Suc (layerIndex (nodes s ! i))"
    unfolding forwardFrom_def by blast+
  from t show "targetId c < length (nodes s)" .
  from l show "layerIndex (nodes s ! targetId c) = Suc (layerIndex (nodes s ! i))" .
  from assms(1) t show "nodeMap s (targetId c) = Some (targetId c)"
    unfolding wired_def by blast
qed

lemma setup_total: "\<exists>s'. setup_fn h s = Inr s'"
  using setup_result [of h s] by blast

lemma setup_wired:
  assumes "setup_fn h s = Inr s'"
  shows "\<exists>prev. wired h (length (layers (config s))) s' prev"
  using setup_result [of h s] assms by auto

lemma setup_fields:
  assumes "setup_fn h s = Inr s'"
  shows "config s' = config s" "animationFrameId s' = animationFrameId s"
    "rafLast s' = rafLast s" "rafPending s' = rafPending s"
    "resizeListening s' = resizeListening s"
    "parsedActiveConnectionColors s' = parsedActiveConnectionColors (processColors h s)"
    "parsedConnectionColor s' = parsedConnectionColor (processColors h s)"
proof -
  from setup_result [of h s] assms
  have s': "s' = (cleared h s)\<lparr>nextNodeId := nextNodeId s', nodes := nodes s', nodeMap := nodeMap s'\<rparr>"
    by auto
  show "config s' = config s" by (subst s') simp
  show "animationFrameId s' = animationFrameId s"
    by (subst s') (simp add: cleared_def processColors_def Let_def)
  show "rafLast s' = rafLast s"
    by (subst s') (simp add: cleared_def processColors_def Let_def)
  show "rafPending s' = rafPending s"
    by (subst s') (simp add: cleared_def processColors_def Let_def)
  show "resizeListening s' = resizeListening s"
    by (subst s') (simp add: cleared_def processColors_def Let_def)
  show "parsedActiveConnectionColors s' = parsedActiveConnectionColors (processColors h s)"
    by (subst s') (simp add: cleared_def processColors_def Let_def)
  show "parsedConnectionColor s' = parsedConnectionColor (processColors h s)"
    by (subst s') (simp add: cleared_def processColors_def Let_def)
qed

lemma setup_sound: "rearranges h \<Longrightarrow> setup_fn h s = Inr s' \<Longrightarrow> sound s'"
  using setup_wired wired_sound by blast

lemma edges_forward:
  assumes "sound s" and "(i, t) \<in> edges s"
  shows "t < length (nodes s) \<and> layerIndex (nodes s ! t) = Suc (layerIndex (nodes s ! i))"
proof -
  from assms(2) obtain c where i: "i < length (nodes s)"
    and c: "c \<in> set (connections (nodes s ! i))" and t: "nodeMap s (targetId c) = Some t"
    by (auto simp: edges_def)
  from assms(1) i c have "nodeMap s (targetId c) = Some (targetId c)"
    and "targetId c < length (nodes s)"
    and "layerIndex (nodes s ! targetId c) = Suc (layerIndex (nodes s ! i))"
    unfolding sound_def by blast+
  with t show ?thesis by simp
qed

lemma sound_acyclic:
  assumes "sound s"
  shows "acyclic (edges s)"
proof -
  have "acyclic ((edges s)\<inverse>)"
  proof (rule acyclicI_order)
    fix a b assume "(a, b) \<in> (edges s)\<inverse>"
    then have "(b, a) \<in> edges s" by simp
    from edges_forward [OF assms this]
    show "layerIndex (nodes s ! b) < layerIndex (nodes s ! a)" by simp
  qed
  then show ?thesis by simp
qed

lemma quiet_rearranges: "rearranges quietHost"
  by (simp add: rearranges_def quietHost_def)

lemma pair_setup_nodes:
  "(case setup_fn quietHost (declared pairOptions) of
      Inl e \<Rightarrow> False | Inr s' \<Rightarrow> nodes s' = pairNodes 0 0 \<and> nextNodeId s' = 2 \<and> map (nodeMap s') [0, 1, 2] = [Some 0, Some 1, None])"
  by code_simp

lemma three_setup:
  "(case setup_fn quietHost (declared threeOptions) of
      Inl e \<Rightarrow> False
    | Inr s' \<Rightarrow>
        map (\<lambda>n. length (connections n)) (nodes s') = [2, 2, 1, 1, 1, 0] \<and>
        map (\<lambda>n. nextLayerSize (nodes s') (layerIndex n)) (nodes s') = [3, 3, 1, 1, 1, 0])"
  by code_simp

text \<open>
  C1. \<open>setup\<close> returns, and in the topology it has built every connection of a node leads
  to a node of the next layer: \<open>nodeMap\<close> has the target id, the node found there has that
  id, and its layer index is the source's plus one. In particular every layer index is
  below the number of layers, a node of the last layer has no connection, and the
  connections form no cycle.
\<close>

theorem setup_forward_only:
  assumes "rearranges h"
  shows "\<exists>s'. setup_fn h s = Inr s' \<and>
     (\<forall>n\<in>set (nodes s'). \<forall>c\<in>set (connections n).
        \<exists>t. nodeMap s' (targetId c) = Some t \<and> t < length (nodes s') \<and>
            nodeId (nodes s' ! t) = targetId c \<and>
            layerIndex (nodes s' ! t) = layerIndex n + 1) \<and>
     (\<forall>n\<in>set (nodes s'). layerIndex n < length (layers (config s)) \<and>
        (layerIndex n + 1 = length (layers (config s)) \<longrightarrow> connections n = [])) \<and>
     acyclic (edges s')"
proof -
  from setup_result [of h s] obtain s' prev where run: "setup_fn h s = Inr s'"
    and w: "wired h (length (layers (config s))) s' prev" by blast
  have snd: "sound s'" using w assms by (rule wired_sound)
  have fw: "\<exists>t. nodeMap s' (targetId c) = Some t \<and> t < length (nodes s') \<and>
            nodeId (nodes s' ! t) = targetId c \<and> layerIndex (nodes s' ! t) = layerIndex n + 1"
    if n: "n \<in> set (nodes s')" and c: "c \<in> set (connections n)" for n c
  proof -
    from n obtain i where i: "i < length (nodes s')" and ni: "n = nodes s' ! i"
      by (auto simp: in_set_conv_nth)
    from snd i c ni have m: "nodeMap s' (targetId c) = Some (targetId c)"
      and t: "targetId c < length (nodes s')"
      and l: "layerIndex (nodes s' ! targetId c) = Suc (layerIndex n)"
      unfolding sound_def by blast+
    from w t have "nodeId (nodes s' ! targetId c) = targetId c"
      unfolding wired_def by blast
    with m t l show ?thesis by simp
  qed
  have lastL: "layerIndex n < length (layers (config s)) \<and>
        (layerIndex n + 1 = length (layers (config s)) \<longrightarrow> connections n = [])"
    if n: "n \<in> set (nodes s')" for n
  proof -
    from n obtain i where i: "i < length (nodes s')" and ni: "n = nodes s' ! i"
      by (auto simp: in_set_conv_nth)
    from w i ni show ?thesis unfolding wired_def by auto
  qed
  from run fw lastL sound_acyclic [OF snd] show ?thesis by blast
qed

text \<open>
  For the layers \<open>[1, 1]\<close>: the input node is connected to the output node, which has no
  connection.
\<close>

theorem setup_forward_only_pair:
  "rearranges quietHost \<and>
   (\<exists>s'. setup_fn quietHost (declared pairOptions) = Inr s' \<and>
      map (\<lambda>n. (layerIndex n, map targetId (connections n))) (nodes s') = [(0, [1]), (1, [])] \<and>
      acyclic (edges s'))"
proof -
  from setup_forward_only [OF quiet_rearranges, of "declared pairOptions"] obtain s'
    where run: "setup_fn quietHost (declared pairOptions) = Inr s'" and "acyclic (edges s')"
    by blast
  moreover from run pair_setup_nodes have "nodes s' = pairNodes 0 0" by simp
  ultimately show ?thesis using quiet_rearranges by (auto simp: pairNodes_def)
qed

text \<open>
  C6. In the topology \<open>setup\<close> has built, a node has at most
  \<open>min(maxConnectionsPerNode, number of nodes in the next layer)\<close> connections, and when
  there is one layer only, no node has a connection.
\<close>

theorem setup_fan_out:
  assumes "rearranges h"
  shows "\<exists>s'. setup_fn h s = Inr s' \<and>
     (\<forall>n\<in>set (nodes s').
        length (connections n)
          \<le> min (maxConnectionsPerNode (config s)) (nextLayerSize (nodes s') (layerIndex n)) \<and>
        (length (layers (config s)) = 1 \<longrightarrow> connections n = []))"
proof -
  from setup_result [of h s] obtain s' prev where run: "setup_fn h s = Inr s'"
    and w: "wired h (length (layers (config s))) s' prev" by blast
  have cfg: "config s' = config s" using run by (rule setup_fields)
  have "length (connections n)
          \<le> min (maxConnectionsPerNode (config s)) (nextLayerSize (nodes s') (layerIndex n)) \<and>
        (length (layers (config s)) = 1 \<longrightarrow> connections n = [])"
    if n: "n \<in> set (nodes s')" for n
  proof -
    from n obtain i where i: "i < length (nodes s')" and ni: "n = nodes s' ! i"
      by (auto simp: in_set_conv_nth)
    from w i assms have "fanOutBounded (config s') (nodes s') (nodes s' ! i)"
      unfolding wired_def by blast
    then have bound: "length (connections n)
          \<le> min (maxConnectionsPerNode (config s)) (nextLayerSize (nodes s') (layerIndex n))"
      by (simp add: fanOutBounded_def ni cfg)
    have "connections n = []" if one: "length (layers (config s)) = 1"
    proof -
      from w i have "layerIndex (nodes s' ! i) < length (layers (config s))"
        and "Suc (layerIndex (nodes s' ! i)) = length (layers (config s)) \<longrightarrow>
             connections (nodes s' ! i) = []"
        unfolding wired_def by blast+
      with one ni show ?thesis by simp
    qed
    with bound show ?thesis by simp
  qed
  with run show ?thesis by blast
qed

text \<open>
  For the layers \<open>[2, 3, 1]\<close> and at most 2 connections per node: the fan-outs are 2, 2, 1,
  1, 1, 0 and the next layers have 3, 3, 1, 1, 1, 0 nodes.
\<close>

theorem setup_fan_out_three:
  "rearranges quietHost \<and>
   (\<exists>s'. setup_fn quietHost (declared threeOptions) = Inr s' \<and>
      map (\<lambda>n. length (connections n)) (nodes s') = [2, 2, 1, 1, 1, 0] \<and>
      map (\<lambda>n. nextLayerSize (nodes s') (layerIndex n)) (nodes s') = [3, 3, 1, 1, 1, 0] \<and>
      maxConnectionsPerNode (config (declared threeOptions)) = 2)"
proof -
  from setup_fan_out [OF quiet_rearranges, of "declared threeOptions"] obtain s'
    where run: "setup_fn quietHost (declared threeOptions) = Inr s'"
    by blast
  from run three_setup
  have "map (\<lambda>n. length (connections n)) (nodes s') = [2, 2, 1, 1, 1, 0]"
    and "map (\<lambda>n. nextLayerSize (nodes s') (layerIndex n)) (nodes s') = [3, 3, 1, 1, 1, 0]"
    by simp_all
  moreover have "maxConnectionsPerNode (config (declared threeOptions)) = 2"
    by (simp add: declared_def threeOptions_def defaultConfig_def)
  ultimately show ?thesis using run quiet_rearranges by auto
qed


section \<open>The lifecycle\<close>

lemma updateNode_fields [simp]:
  "connections (updateNode cfg h i n) = connections n"
  "layerIndex (updateNode cfg h i n) = layerIndex n"
  "incomingSignal (updateNode cfg h i n) = incomingSignal n"
  "activationLevel (updateNode cfg h i n) = nextActivation cfg (randFire h i) n"
  by (simp_all add: updateNode_def Let_def)

lemma update_nodeMap [simp]: "nodeMap (update h s) = nodeMap s"
  by (simp add: update_def)

lemma update_connections:
  "i < length (nodes s) \<Longrightarrow> connections (nodes (update h s) ! i) = connections (nodes s ! i)"
  by (simp add: update_nth)

lemma update_layerIndex:
  "i < length (nodes s) \<Longrightarrow> layerIndex (nodes (update h s) ! i) = layerIndex (nodes s ! i)"
  by (simp add: update_nth)

lemma update_sound:
  assumes "sound s"
  shows "sound (update h s)"
  unfolding sound_def
proof (intro allI impI conjI ballI)
  fix i c assume "i < length (nodes (update h s))"
    and c': "c \<in> set (connections (nodes (update h s) ! i))"
  then have i: "i < length (nodes s)" by simp
  with c' have c: "c \<in> set (connections (nodes s ! i))" by (simp add: update_connections)
  from assms i c have m: "nodeMap s (targetId c) = Some (targetId c)"
    and t: "targetId c < length (nodes s)"
    and l: "layerIndex (nodes s ! targetId c) = Suc (layerIndex (nodes s ! i))"
    unfolding sound_def by blast+
  from m show "nodeMap (update h s) (targetId c) = Some (targetId c)" by simp
  from t show "targetId c < length (nodes (update h s))" by simp
  from l i t show "layerIndex (nodes (update h s) ! targetId c)
      = Suc (layerIndex (nodes (update h s) ! i))"
    by (simp add: update_layerIndex)
qed

lemma start_result:
  "\<exists>s'. start h s = Inr s' \<and> truthy (animationFrameId s') \<and>
      (s' = s \<or>
       (\<not> truthy (animationFrameId s) \<and>
        (\<exists>s1. (if length (nodes s) = 0 then setup_fn h s else Inr s) = Inr s1 \<and>
           s' = s1\<lparr>animationFrameId := Some (rafLast s1 + 1), rafLast := rafLast s1 + 1,
                   rafPending := rafPending s1 @ [rafLast s1 + 1], resizeListening := True\<rparr>)))"
proof (cases "truthy (animationFrameId s)")
  case True
  then show ?thesis by (simp add: start_def)
next
  case False
  obtain s1 where s1: "(if length (nodes s) = 0 then setup_fn h s else Inr s) = Inr s1"
    using setup_total [of h s] by (cases "length (nodes s) = 0") auto
  let ?s' = "s1\<lparr>animationFrameId := Some (rafLast s1 + 1), rafLast := rafLast s1 + 1,
                   rafPending := rafPending s1 @ [rafLast s1 + 1], resizeListening := True\<rparr>"
  have "start h s = Inr ?s'"
    using False s1 by (simp add: start_def requestAnimationFrame_def Let_def)
  moreover have "truthy (animationFrameId ?s')" by (simp add: truthy_def)
  ultimately show ?thesis using False s1 by blast
qed

text \<open>
  C9. From any state, \<open>start\<close> returns, and a second \<open>start\<close> right after it (whatever the
  host then answers) leaves the state as the first left it; a second \<open>stop\<close> right after a
  \<open>stop\<close> leaves the state as the first left it.
\<close>

theorem start_stop_idempotent:
  "(\<exists>s1. start h s = Inr s1 \<and> start h' s1 = Inr s1) \<and> stop (stop s) = stop s"
proof
  from start_result [of h s] obtain s1 where "start h s = Inr s1" "truthy (animationFrameId s1)"
    by blast
  moreover from this have "start h' s1 = Inr s1" by (simp add: start_def)
  ultimately show "\<exists>s1. start h s = Inr s1 \<and> start h' s1 = Inr s1" by blast
next
  show "stop (stop s) = stop s"
    by (simp add: stop_def truthy_def cancelAnimationFrame_def)
qed

lemma start_sound:
  assumes "rearranges h" and "sound s" and "start h s = Inr s'"
  shows "sound s'"
proof -
  from start_result [of h s] obtain s2 where s2: "start h s = Inr s2"
    and alt: "s2 = s \<or>
       (\<exists>s1. (if length (nodes s) = 0 then setup_fn h s else Inr s) = Inr s1 \<and>
           s2 = s1\<lparr>animationFrameId := Some (rafLast s1 + 1), rafLast := rafLast s1 + 1,
                   rafPending := rafPending s1 @ [rafLast s1 + 1], resizeListening := True\<rparr>)"
    by blast
  from s2 assms(3) have eq: "s2 = s'" by simp
  from alt consider "s' = s"
    | s1 where "(if length (nodes s) = 0 then setup_fn h s else Inr s) = Inr s1"
      "s' = s1\<lparr>animationFrameId := Some (rafLast s1 + 1), rafLast := rafLast s1 + 1,
                   rafPending := rafPending s1 @ [rafLast s1 + 1], resizeListening := True\<rparr>"
    unfolding eq by blast
  then show ?thesis
  proof cases
    case 1
    with assms(2) show ?thesis by simp
  next
    case 2
    have "sound s1"
    proof (cases "length (nodes s) = 0")
      case True
      with 2(1) have "setup_fn h s = Inr s1" by simp
      with assms(1) show ?thesis by (rule setup_sound)
    next
      case False
      with 2(1) assms(2) show ?thesis by simp
    qed
    moreover have "nodes s' = nodes s1" "nodeMap s' = nodeMap s1"
      by (simp_all add: 2(2))
    ultimately show ?thesis by (rule sound_cong)
  qed
qed

lemma stop_sound: "sound s \<Longrightarrow> sound (stop s)"
  by (simp add: stop_def cancelAnimationFrame_def sound_def)

lemma animate_sound: "sound s \<Longrightarrow> sound (animate h s)"
proof -
  assume "sound s"
  then have "sound (update h s)" by (rule update_sound)
  moreover have "nodes (animate h s) = nodes (update h s)" "nodeMap (animate h s) = nodeMap (update h s)"
    by (simp_all add: animate_def requestAnimationFrame_def Let_def)
  ultimately show ?thesis by (rule sound_cong)
qed

lemma frame_sound: "sound s \<Longrightarrow> sound (frame h s)"
proof (cases "rafPending s")
  case Nil
  assume "sound s"
  with Nil show ?thesis by (simp add: frame_def)
next
  case (Cons handle rest)
  assume "sound s"
  then have "sound (s\<lparr>rafPending := rest\<rparr>)" by (simp add: sound_def)
  then have "sound (animate h (s\<lparr>rafPending := rest\<rparr>))" by (rule animate_sound)
  with Cons show ?thesis by (simp add: frame_def)
qed

lemma handleResize_sound:
  assumes "rearranges h" and "handleResize h s = Inr s'"
  shows "sound s'"
proof -
  from setup_total [of h "stop s"] obtain s1 where s1: "setup_fn h (stop s) = Inr s1" by blast
  with assms(2) have "start h s1 = Inr s'" by (simp add: handleResize_def)
  moreover have "sound s1" using assms(1) s1 by (rule setup_sound)
  ultimately show ?thesis using assms(1) by (blast intro: start_sound)
qed

lemma setConfig_sound:
  assumes "rearranges h" and "setConfig h newOptions s = Inr s'"
  shows "sound s'"
proof (cases "truthy (animationFrameId (s\<lparr>config := newOptions (config s)\<rparr>))")
  case True
  with assms(2) have "handleResize h (s\<lparr>config := newOptions (config s)\<rparr>) = Inr s'"
    by (simp add: setConfig_def Let_def)
  with assms(1) show ?thesis by (rule handleResize_sound)
next
  case False
  with assms(2) have "setup_fn h (s\<lparr>config := newOptions (config s)\<rparr>) = Inr s'"
    by (simp add: setConfig_def Let_def)
  with assms(1) show ?thesis by (rule setup_sound)
qed

lemma create_sound:
  assumes "rearranges h" and "createNeuralNetworkAnimation h options = Inr s"
  shows "sound s"
proof -
  from setup_total [of h "declared options"] obtain s1
    where s1: "setup_fn h (declared options) = Inr s1" by blast
  with assms(2) have "start h s1 = Inr s" by (simp add: createNeuralNetworkAnimation_def)
  moreover have "sound s1" using assms(1) s1 by (rule setup_sound)
  ultimately show ?thesis using assms(1) by (blast intro: start_sound)
qed

lemma reachable_sound: "reachable s \<Longrightarrow> sound s"
proof (induction rule: reachable.induct)
  case (created h options s)
  then show ?case by (rule create_sound)
next
  case (framed s h)
  then show ?case by (simp add: frame_sound)
next
  case (started s h s')
  then show ?case by (blast intro: start_sound)
next
  case (stopped s)
  then show ?case by (simp add: stop_sound)
next
  case (resized s h s')
  then show ?case by (blast intro: handleResize_sound)
next
  case (configured s h newOptions s')
  then show ?case by (blast intro: setConfig_sound)
qed

lemma create_total: "\<exists>s. createNeuralNetworkAnimation h options = Inr s"
proof -
  from setup_total [of h "declared options"] obtain s1
    where s1: "setup_fn h (declared options) = Inr s1" by blast
  from start_result [of h s1] obtain s where "start h s1 = Inr s" by blast
  with s1 show ?thesis by (simp add: createNeuralNetworkAnimation_def)
qed

lemma pair_create_nodes:
  "(case createNeuralNetworkAnimation quietHost pairOptions of
      Inl e \<Rightarrow> False | Inr s' \<Rightarrow> nodes s' = pairNodes 0 0 \<and> animationFrameId s' = Some 1 \<and> rafPending s' = [1] \<and> resizeListening s')"
  by code_simp


section \<open>The states the engine can be in\<close>

text \<open>
  The level a tick computes is the real number \<open>update\<close> stores, and is at least 0, when
  \<open>activationThreshold\<close> is not 0; and \<open>setup\<close> leaves every level at 0.
\<close>

lemma activationAfter_real:
  "activationThreshold cfg \<noteq> 0 \<Longrightarrow> activationAfter cfg rnd n = Num (nextActivation cfg rnd n)"
  by (simp add: activationAfter_def nextActivation_def jsDivide_def Let_def)

lemma levelAfterTick_real:
  "activationThreshold (config s) \<noteq> 0 \<Longrightarrow> i < length (nodes s) \<Longrightarrow>
   levelAfterTick h s i = Num (activationLevel (nodes (update h s) ! i)) \<and>
   0 \<le> activationLevel (nodes (update h s) ! i)"
  by (simp add: levelAfterTick_def activationAfter_real update_level propagate_nth)
    (simp add: nextActivation_def Let_def)

lemma setup_levels:
  assumes "setup_fn h s = Inr s'" and "i < length (nodes s')"
  shows "activationLevel (nodes s' ! i) = 0"
proof -
  from assms(1) obtain prev where "wired h (length (layers (config s))) s' prev"
    using setup_wired by blast
  with assms(2) show ?thesis unfolding wired_def by blast
qed

lemma zero_threshold_first_tick:
  "(case createNeuralNetworkAnimation quietHost zeroThresholdOptions of
      Inl e \<Rightarrow> False
    | Inr s \<Rightarrow>
        activationThreshold (config s) = 0 \<and> map layerIndex (nodes s) = [0, 1] \<and>
        map activationLevel (nodes s) = [0, 0] \<and>
        incomingSignal (propagate (config s) (nodeMap s) (nodes s) ! 1) = 0 \<and>
        levelAfterTick quietHost s 1 = NaN)"
  by code_simp

text \<open>
  C4. The levels are meant never to be negative (line 211 takes the maximum with 0), but
  with \<open>activationThreshold = 0\<close> the code does not keep them so. In the engine created
  for the layers \<open>[1, 1]\<close> with that threshold, the output node has level 0 and receives
  the signal 0 in the first tick; \<open>0 >= 0\<close> holds at line 201, line 204 divides 0 by 0, and
  the level line 211 assigns is NaN, which is not at least 0.
\<close>

theorem zero_threshold_level_is_NaN:
  "\<exists>s. createNeuralNetworkAnimation quietHost zeroThresholdOptions = Inr s \<and>
       activationThreshold (config s) = 0 \<and>
       map layerIndex (nodes s) = [0, 1] \<and>
       map activationLevel (nodes s) = [0, 0] \<and>
       incomingSignal (propagate (config s) (nodeMap s) (nodes s) ! 1) = 0 \<and>
       levelAfterTick quietHost s 1 = NaN"
proof -
  from create_total [of quietHost zeroThresholdOptions] obtain s
    where s: "createNeuralNetworkAnimation quietHost zeroThresholdOptions = Inr s" by blast
  with zero_threshold_first_tick show ?thesis by simp
qed

lemma sum_list_all_zero:
  "(\<And>x. x \<in> set xs \<Longrightarrow> f x = 0) \<Longrightarrow> (\<Sum>x\<leftarrow>xs. f x) = (0::real)"
  by (induction xs) simp_all

lemma sound_input_signal:
  assumes "sound s" and "j < length (nodes s)" and "layerIndex (nodes s ! j) = 0"
  shows "expectedSignal (config s) (nodeMap s) (nodes s) j = 0"
proof -
  have "signalFrom (config s) (nodeMap s) src j = 0" if "src \<in> set (nodes s)" for src
  proof -
    from that obtain i where i: "i < length (nodes s)" and src: "src = nodes s ! i"
      by (auto simp: in_set_conv_nth)
    have "nodeMap s (targetId c) \<noteq> Some j" if "c \<in> set (connections src)" for c
    proof
      assume m: "nodeMap s (targetId c) = Some j"
      from assms(1) i that src have "nodeMap s (targetId c) = Some (targetId c)"
        and "layerIndex (nodes s ! targetId c) = Suc (layerIndex (nodes s ! i))"
        unfolding sound_def by blast+
      with m assms(3) show False by simp
    qed
    then have "(\<Sum>c\<leftarrow>connections src. if nodeMap s (targetId c) = Some j
                 then activationLevel src * signalPropagationSpeed (config s) else 0) = 0"
      by (intro sum_list_all_zero) simp
    then show ?thesis by (simp add: signalFrom_def)
  qed
  then show ?thesis unfolding expectedSignal_def by (rule sum_list_all_zero)
qed

text \<open>
  C3. After the propagation phase of a tick, and still at the end of the tick, the
  \<open>incomingSignal\<close> of the node at position \<open>j\<close> is the sum, over the connections that lead
  to it from a source whose level before the tick was above \<open>minActivationLevel\<close>, of that
  level before the tick times \<open>signalPropagationSpeed\<close>; and in a state the engine can be
  in, a node of layer 0 accumulates nothing.
\<close>

theorem propagation_snapshot:
  assumes "j < length (nodes s)"
  shows "incomingSignal (propagate (config s) (nodeMap s) (nodes s) ! j)
           = expectedSignal (config s) (nodeMap s) (nodes s) j \<and>
         incomingSignal (nodes (update h s) ! j)
           = expectedSignal (config s) (nodeMap s) (nodes s) j \<and>
         (reachable s \<longrightarrow> layerIndex (nodes s ! j) = 0 \<longrightarrow>
            incomingSignal (nodes (update h s) ! j) = 0)"
  using assms
  by (simp add: propagate_nth update_nth sound_input_signal reachable_sound)

text \<open>
  For the layers \<open>[1, 1]\<close>: a source at level 1 sends 1 to the output node, and the input
  node of the newly created engine receives 0.
\<close>

theorem propagation_snapshot_pair:
  "incomingSignal (nodes (update quietHost (pairEngine 1 0)) ! 1) = 1 \<and>
   (\<exists>s. reachable s \<and> nodes s = pairNodes 0 0 \<and>
      incomingSignal (nodes (update quietHost s) ! 0) = 0)"
proof -
  have "incomingSignal (nodes (update quietHost (pairEngine 1 0)) ! 1) = 1"
    using propagation_snapshot [of 1 "pairEngine 1 0" quietHost]
    by (simp add: pair_fields pair_signal)
  moreover have "\<exists>s. reachable s \<and> nodes s = pairNodes 0 0 \<and>
      incomingSignal (nodes (update quietHost s) ! 0) = 0"
  proof -
    from create_total [of quietHost pairOptions] obtain s
      where s: "createNeuralNetworkAnimation quietHost pairOptions = Inr s" by blast
    with pair_create_nodes have ns: "nodes s = pairNodes 0 0" by simp
    from quiet_rearranges s have r: "reachable s" by (rule reachable.created)
    have "incomingSignal (nodes (update quietHost s) ! 0) = 0"
      using propagation_snapshot [of 0 s quietHost] r ns by (simp add: pairNodes_def)
    with r ns show ?thesis by blast
  qed
  ultimately show ?thesis ..
qed


section \<open>The connection style at the ends of the range\<close>

lemma lerp_ends [simp]: "lerp x y 0 = x" "lerp x y 1 = y"
  by (simp_all add: lerp_def)

lemma lerpColor_start: "lerpColor c d 0 = clampChannels c"
  by (cases c) (simp add: lerpColor_def channel_def clampChannels_def)

lemma clampChannels_valid: "validColor c \<Longrightarrow> clampChannels c = c"
  by (cases c) (simp add: clampChannels_def validColor_def)

lemma clampChannels_idem [simp]: "clampChannels (clampChannels c) = clampChannels c"
  by (cases c) (simp add: clampChannels_def)

lemma paletteAt_first: "palette \<noteq> [] \<Longrightarrow> paletteAt palette 0 = Some (palette ! 0)"
  by (simp add: paletteAt_def)

lemma paletteAt_last:
  "palette \<noteq> [] \<Longrightarrow> paletteAt palette (int (length palette) - 1) = Some (last palette)"
  by (cases palette rule: rev_cases) (simp_all add: paletteAt_def nat_diff_distrib' nth_append)

lemma paletteAt_second:
  "palette \<noteq> [] \<Longrightarrow> \<exists>c. paletteAt palette (min (int (length palette) - 1) 1) = Some c"
  by (cases palette) (auto simp: paletteAt_def min_def)

lemma default_colors:
  "parsedActiveConnectionColors (processColors quietHost (declared id)) =
     [\<lparr>red = 100, green = 180, blue = 255, alpha = 7 / 10\<rparr>,
      \<lparr>red = 160, green = 220, blue = 255, alpha = 85 / 100\<rparr>,
      \<lparr>red = 220, green = 250, blue = 255, alpha = 95 / 100\<rparr>,
      \<lparr>red = 255, green = 255, blue = 255, alpha = 9 / 10\<rparr>]"
  "parsedConnectionColor (processColors quietHost (declared id)) =
     \<lparr>red = 80, green = 130, blue = 200, alpha = 1 / 10\<rparr>"
  by code_simp+

lemma overflow_colors:
  "parsedConnectionColor (processColors quietHost (declared overflowOptions))
     = \<lparr>red = 300, green = 0, blue = 0, alpha = 1 / 10\<rparr>"
  "connectionStyle (processColors quietHost (declared overflowOptions)) 0
     = Inr (\<lparr>red = 255, green = 0, blue = 0, alpha = 1 / 10\<rparr>, 1 / 2, 0)"
  by code_simp+

text \<open>
  C7, as amended. With a palette that is not empty, the connection style at activation 0
  is the dim connection colour with its red, green and blue channels clamped to
  \<open>[0, 255]\<close>, the base stroke width and no glow; at activation 1 it is the last palette
  colour with its channels clamped likewise, the active stroke width and the configured
  glow blur. Clamping leaves a colour whose channels are in \<open>[0, 255]\<close> as it is.
\<close>

theorem connection_style_ends:
  assumes "parsedActiveConnectionColors s \<noteq> []"
  shows "connectionStyle s 0
           = Inr (clampChannels (parsedConnectionColor s), connectionWidth (config s), 0) \<and>
         connectionStyle s 1
           = Inr (clampChannels (last (parsedActiveConnectionColors s)),
                  activeConnectionWidth (config s), connectionGlowBlur (config s)) \<and>
         (\<forall>c. validColor c \<longrightarrow> clampChannels c = c)"
proof (intro conjI allI impI)
  let ?p = "parsedActiveConnectionColors s"
  from paletteAt_second [OF assms] obtain c
    where c: "paletteAt ?p (min (int (length ?p) - 1) 1) = Some c" by blast
  show "connectionStyle s 0
           = Inr (clampChannels (parsedConnectionColor s), connectionWidth (config s), 0)"
    using assms c by (simp add: connectionStyle_def Let_def paletteAt_first lerpColor_start)
  show "connectionStyle s 1
           = Inr (clampChannels (last ?p), activeConnectionWidth (config s),
                  connectionGlowBlur (config s))"
    using assms by (simp add: connectionStyle_def Let_def paletteAt_last lerpColor_start)
  fix c assume "validColor c"
  then show "clampChannels c = c" by (rule clampChannels_valid)
qed

text \<open>The default colours: the style at activation 0 and at activation 1.\<close>

theorem connection_style_ends_default:
  "parsedActiveConnectionColors (processColors quietHost (declared id)) \<noteq> [] \<and>
   connectionStyle (processColors quietHost (declared id)) 0
     = Inr (\<lparr>red = 80, green = 130, blue = 200, alpha = 1 / 10\<rparr>, 1 / 2, 0) \<and>
   connectionStyle (processColors quietHost (declared id)) 1
     = Inr (\<lparr>red = 255, green = 255, blue = 255, alpha = 9 / 10\<rparr>, 3 / 2, 4)"
proof -
  have cfg: "connectionWidth (config (processColors quietHost (declared id))) = 1 / 2"
    "activeConnectionWidth (config (processColors quietHost (declared id))) = 3 / 2"
    "connectionGlowBlur (config (processColors quietHost (declared id))) = 4"
    by (simp_all add: processColors_def declared_def defaultConfig_def Let_def)
  have ne: "parsedActiveConnectionColors (processColors quietHost (declared id)) \<noteq> []"
    by (simp add: default_colors)
  show ?thesis
    using connection_style_ends [OF ne]
    by (simp add: default_colors cfg clampChannels_def)
qed

text \<open>
  C7 as it is stated fails for a dim connection colour with a channel above 255: for
  \<open>rgba(300, 0, 0, 0.1)\<close> the parsed dim colour has the red channel 300, and the style at
  activation 0 has the red channel 255.
\<close>

theorem connection_style_clamps_dim_color:
  "parsedActiveConnectionColors (processColors quietHost (declared overflowOptions)) \<noteq> [] \<and>
   parsedConnectionColor (processColors quietHost (declared overflowOptions))
     = \<lparr>red = 300, green = 0, blue = 0, alpha = 1 / 10\<rparr> \<and>
   connectionStyle (processColors quietHost (declared overflowOptions)) 0
     = Inr (\<lparr>red = 255, green = 0, blue = 0, alpha = 1 / 10\<rparr>, 1 / 2, 0)"
proof -
  have "parsedActiveConnectionColors (processColors quietHost (declared overflowOptions)) \<noteq> []"
    by (simp add: processColors_def Let_def declared_def overflowOptions_def defaultConfig_def)
  then show ?thesis by (simp add: overflow_colors)
qed


section \<open>The empty palette\<close>

lemma fallback_color:
  "parseColor h ''rgba(255,255,255,0.9)''
     = \<lparr>red = 255, green = 255, blue = 255, alpha = parseFloat h ''0.9''\<rparr>"
  by (simp add: parseColor_def matchHere_def numberThenComma_def alphaGroup_def isDigit_def
      isSpace_def isDigitOrDot_def parseInt_def digitValue_def Let_def)

lemma single_palette_style:
  assumes "parsedActiveConnectionColors s = [c]"
  shows "\<exists>style. connectionStyle s activation = Inr style"
  using assms by (simp add: connectionStyle_def Let_def paletteAt_def)

text \<open>
  C8. With an empty \<open>activeConnectionColors\<close>, \<open>processColors\<close> (which has no way to throw)
  leaves the one-colour palette \<open>rgba(255,255,255,0.9)\<close>; \<open>setup\<close> returns with that
  palette, and with it the connection style is defined for every activation.
\<close>

theorem empty_palette_fallback:
  assumes "activeConnectionColors (config s) = []"
  shows "parsedActiveConnectionColors (processColors h s)
           = [\<lparr>red = 255, green = 255, blue = 255, alpha = parseFloat h ''0.9''\<rparr>] \<and>
         (\<exists>s'. setup_fn h s = Inr s' \<and>
            parsedActiveConnectionColors s'
              = [\<lparr>red = 255, green = 255, blue = 255, alpha = parseFloat h ''0.9''\<rparr>] \<and>
            (\<forall>activation. \<exists>style. connectionStyle s' activation = Inr style))"
proof -
  have p: "parsedActiveConnectionColors (processColors h s)
           = [\<lparr>red = 255, green = 255, blue = 255, alpha = parseFloat h ''0.9''\<rparr>]"
    using assms by (simp add: processColors_def Let_def fallback_color)
  from setup_total [of h s] obtain s' where run: "setup_fn h s = Inr s'" by blast
  then have "parsedActiveConnectionColors s' = parsedActiveConnectionColors (processColors h s)"
    by (rule setup_fields)
  with p have p': "parsedActiveConnectionColors s'
           = [\<lparr>red = 255, green = 255, blue = 255, alpha = parseFloat h ''0.9''\<rparr>]"
    by simp
  then have "\<forall>activation. \<exists>style. connectionStyle s' activation = Inr style"
    by (blast intro: single_palette_style)
  with p run p' show ?thesis by blast
qed

text \<open>The default configuration with the palette emptied.\<close>

theorem empty_palette_fallback_example:
  "activeConnectionColors (config (declared noPaletteOptions)) = [] \<and>
   parsedActiveConnectionColors (processColors quietHost (declared noPaletteOptions))
     = [\<lparr>red = 255, green = 255, blue = 255, alpha = 9 / 10\<rparr>]"
proof -
  have e: "activeConnectionColors (config (declared noPaletteOptions)) = []"
    by (simp add: declared_def noPaletteOptions_def)
  have "parseFloat quietHost ''0.9'' = 9 / 10"
    by code_simp
  with empty_palette_fallback [OF e, of quietHost] e show ?thesis by simp
qed

end
